theory Spec2Isabelle
  imports Complex_Main "HOL-Library.Char_ord" "HOL-Library.List_Lexorder"
    "HOL-Library.Product_Lexorder"
begin

section \<open>SQL scalar functions used by the queries\<close>

text \<open>
  The handlers of the gateway build SQL text and send it to DuckDB, so part of the
  program is written in SQL. The scalar functions and the relational operators that the
  queries use are embedded here as HOL functions. A SQL character is a \<^typ>\<open>char\<close>
  (nucleotide sequences and labels are ASCII text), a DOUBLE is the real number that the
  IEEE 754 double holds, and a NULL is \<^term>\<open>None\<close>.
\<close>

subsection \<open>Double precision\<close>

text \<open>
  Every arithmetic operation on DOUBLEs gives the double nearest to the exact result,
  ties going to the even significand. \<open>binary64 x\<close> is that double for a real \<open>x\<close>: the
  significand has 53 bits, so with \<open>2^e \<le> |x| < 2^(e+1)\<close> the doubles around \<open>x\<close> are the
  multiples of \<open>2^(e-52)\<close>. Infinities, NaN, the sign of zero and the subnormal range
  are not modelled: the numbers of the queries lie between \<open>2^-63\<close> and \<open>2^63\<close> in
  magnitude, or are zero.
\<close>

text \<open>\<open>ilog2 n\<close> is the integer part of the binary logarithm of \<open>n \<ge> 1\<close>.\<close>

fun ilog2 :: "nat \<Rightarrow> nat" where
  "ilog2 n = (if n < 2 then 0 else Suc (ilog2 (n div 2)))"

declare ilog2.simps [simp del]

text \<open>\<open>clog2 n\<close> is the least \<open>k\<close> with \<open>n \<le> 2^k\<close>.\<close>

definition clog2 :: "nat \<Rightarrow> nat" where
  "clog2 n = (if n \<le> 1 then 0 else Suc (ilog2 (n - 1)))"

text \<open>The exponent \<open>e\<close> of a positive real: \<open>2^e \<le> x < 2^(e+1)\<close>.\<close>

definition exponent :: "real \<Rightarrow> int" where
  "exponent x =
     (if 1 \<le> x then int (ilog2 (nat \<lfloor>x\<rfloor>)) else - int (clog2 (nat \<lceil>1 / x\<rceil>)))"

definition pow2 :: "int \<Rightarrow> real" where
  "pow2 k = (if 0 \<le> k then 2 ^ nat k else 1 / 2 ^ nat (- k))"

definition roundTiesToEven :: "real \<Rightarrow> int" where
  "roundTiesToEven r =
     (let f = \<lfloor>r\<rfloor>
      in if r - of_int f < 1 / 2 then f
         else if 1 / 2 < r - of_int f then f + 1
         else if even f then f else f + 1)"

definition binary64 :: "real \<Rightarrow> real" where
  "binary64 x =
     (if x = 0 then 0
      else (let ulp = pow2 (exponent \<bar>x\<bar> - 52)
            in sgn x * of_int (roundTiesToEven (\<bar>x\<bar> / ulp)) * ulp))"

text \<open>\<open>CAST(i AS DOUBLE)\<close> of an integer, and the division of two DOUBLEs.\<close>

definition CAST_AS_DOUBLE :: "int \<Rightarrow> real" where
  "CAST_AS_DOUBLE i = binary64 (of_int i)"

definition divide_double :: "real \<Rightarrow> real \<Rightarrow> real" where
  "divide_double a b = binary64 (a / b)"

text \<open>
  \<open>std::round\<close> of the C library: the nearest integer, halves away from zero. Its result
  is a double, so no rounding error is made.
\<close>

definition std_round :: "real \<Rightarrow> real" where
  "std_round y = sgn y * of_int \<lfloor>\<bar>y\<bar> + 1 / 2\<rfloor>"

subsection \<open>Scalar functions\<close>

definition sql_upper_char :: "char \<Rightarrow> char" where
  "sql_upper_char c =
     (case map_of (zip ''abcdefghijklmnopqrstuvwxyz'' ''ABCDEFGHIJKLMNOPQRSTUVWXYZ'') c of
        Some u \<Rightarrow> u | None \<Rightarrow> c)"

definition UPPER :: "string \<Rightarrow> string" where
  "UPPER s = map sql_upper_char s"

text \<open>\<open>REPLACE(s, 'c', '')\<close> with a one-character needle and the empty replacement.\<close>

definition REPLACE_del :: "string \<Rightarrow> char \<Rightarrow> string" where
  "REPLACE_del s c = filter (\<lambda>x. x \<noteq> c) s"

text \<open>
  \<open>ROUND(x, d)\<close> of a DOUBLE \<open>x\<close> to \<open>d \<ge> 0\<close> decimal places. DuckDB computes it in
  double precision:
  \<^verbatim>\<open>
  double modifier = std::pow(10, precision);
  rounded_value = (std::round(input * modifier)) / modifier;
  \<close>
  so the product and the quotient are each rounded to a double. The modifier is the
  double nearest to \<open>10^d\<close>, which is \<open>10^d\<close> itself for the precisions 2 and 4 of the
  queries. (When the quotient is infinite or NaN the engine returns the input; that does
  not happen in the range modelled.)
\<close>

definition ROUND :: "real \<Rightarrow> nat \<Rightarrow> real" where
  "ROUND x d =
     (let modifier = binary64 (10 ^ d);
          rounded_value = binary64 (std_round (binary64 (x * modifier)) / modifier)
      in rounded_value)"

text \<open>
  The derived column of the base CTE of \<open>getNullomersHandler\<close> (and of the stats and
  exome handlers, which repeat the expression):
  \<^verbatim>\<open>
  ROUND(100.0 * (LENGTH(s) - LENGTH(REPLACE(UPPER(s), 'G', ''))
                           - LENGTH(REPLACE(UPPER(s), 'C', ''))) / LENGTH(s), 2) * -1
  \<close>
  DuckDB yields NULL for a division by zero, which is the value for the empty string.
  The product with \<open>100.0\<close> is exact; the division is a division of DOUBLEs; the final
  product with \<open>-1\<close> is exact.
\<close>

definition gc_content :: "string \<Rightarrow> real option" where
  "gc_content s =
     (if length s = 0 then None
      else Some (ROUND (divide_double
                          (binary64 (100 * (of_nat (length s)
                                            - of_nat (length (REPLACE_del (UPPER s) CHR ''G''))
                                            - of_nat (length (REPLACE_del (UPPER s) CHR ''C'')))))
                          (CAST_AS_DOUBLE (int (length s)))) 2 * (- 1)))"

section \<open>Go library functions\<close>

text \<open>
  A Go string is a sequence of bytes, modelled as a \<^typ>\<open>string\<close>. Go's \<open>int\<close> is the
  64-bit signed integer of the platforms DuckDB runs on: a value is an \<^typ>\<open>int\<close>
  within the 64-bit range, and arithmetic that can leave the range is wrapped by
  \<open>int64\<close>.
\<close>

definition int64 :: "int \<Rightarrow> int" where
  "int64 i = (i + 2 ^ 63) mod 2 ^ 64 - 2 ^ 63"

subsection \<open>\<open>strconv.Atoi\<close>\<close>

text \<open>
  \<open>strconv.Atoi\<close> returns a value and an error. Its fast path for short strings and
  its slow path \<open>ParseInt(s, 10, 0)\<close> agree, so the slow path is the model:
  an optional sign, then decimal digits (underscores are not accepted in base 10).
  \<open>ParseUint\<close> reports a range error as soon as the digits read so far exceed
  \<open>2^64 - 1\<close>, before looking at the rest of the string.
\<close>

datatype atoi_error = ErrSyntax | ErrRange

definition isDigit :: "char \<Rightarrow> bool" where
  "isDigit c = (CHR ''0'' \<le> c \<and> c \<le> CHR ''9'')"

definition digitVal :: "char \<Rightarrow> int" where
  "digitVal c = of_char c - of_char CHR ''0''"

fun parseDigits :: "int \<Rightarrow> string \<Rightarrow> int \<times> atoi_error option" where
  "parseDigits n [] = (n, None)"
| "parseDigits n (c # cs) =
     (if \<not> isDigit c then (0, Some ErrSyntax)
      else if n * 10 + digitVal c > 2 ^ 64 - 1 then (2 ^ 64 - 1, Some ErrRange)
      else parseDigits (n * 10 + digitVal c) cs)"

definition ParseUint :: "string \<Rightarrow> int \<times> atoi_error option" where
  "ParseUint s = (if s = [] then (0, Some ErrSyntax) else parseDigits 0 s)"

definition ParseInt :: "string \<Rightarrow> int \<times> atoi_error option" where
  "ParseInt s =
     (if s = [] then (0, Some ErrSyntax)
      else
        let neg = (hd s = CHR ''-'');
            s' = (if hd s = CHR ''+'' \<or> hd s = CHR ''-'' then tl s else s);
            (un, err) = ParseUint s'
        in if err = Some ErrSyntax then (0, err)
           else if \<not> neg \<and> un \<ge> 2 ^ 63 then (2 ^ 63 - 1, Some ErrRange)
           else if neg \<and> un > 2 ^ 63 then (- (2 ^ 63), Some ErrRange)
           else (if neg then - un else un, None))"

definition Atoi :: "string \<Rightarrow> int \<times> atoi_error option" where
  "Atoi s = ParseInt s"

subsection \<open>Formatting with \<open>%d\<close>\<close>

fun digitsOf :: "nat \<Rightarrow> string" where
  "digitsOf n =
     (if n < 10 then [''0123456789'' ! n]
      else digitsOf (n div 10) @ [''0123456789'' ! (n mod 10)])"

declare digitsOf.simps [simp del]

definition Itoa :: "int \<Rightarrow> string" where
  "Itoa i = (if i < 0 then CHR ''-'' # digitsOf (nat (- i)) else digitsOf (nat i))"

subsection \<open>\<open>strings.Split\<close>, \<open>strings.Join\<close>, \<open>strings.Fields\<close>, \<open>strings.TrimSpace\<close>\<close>

text \<open>
  \<open>strings.Split(s, sep)\<close> for a non-empty separator cuts at every non-overlapping
  occurrence of \<open>sep\<close>, left to right; the result always has at least one element.
\<close>

fun SplitFrom :: "string \<Rightarrow> string \<Rightarrow> string \<Rightarrow> string list" where
  "SplitFrom sep cur [] = [cur]"
| "SplitFrom sep cur (c # cs) =
     (if sep \<noteq> [] \<and> take (length sep) (c # cs) = sep
      then cur # SplitFrom sep [] (drop (length sep - 1) cs)
      else SplitFrom sep (cur @ [c]) cs)"

definition Split :: "string \<Rightarrow> string \<Rightarrow> string list" where
  "Split s sep = SplitFrom sep [] s"

definition Join :: "string list \<Rightarrow> string \<Rightarrow> string" where
  "Join elems sep = (case elems of [] \<Rightarrow> [] | x # r \<Rightarrow> x @ concat (map (\<lambda>y. sep @ y) r))"

text \<open>
  \<open>strings.Fields\<close> splits around runs of white space as \<open>unicode.IsSpace\<close> defines it:
  the ASCII characters tab, line feed, vertical tab, form feed, carriage return and
  space, and the code points U+0085, U+00A0, U+1680, U+2000 to U+200A, U+2028, U+2029,
  U+202F, U+205F and U+3000. \<open>spaceWidth s\<close> is the number of bytes of the white-space
  character whose UTF-8 encoding starts \<open>s\<close>, and \<open>0\<close> when there is none. A lead byte
  of UTF-8 is never a continuation byte, so scanning byte by byte finds the same
  white space as Go's decoding character by character.
\<close>

definition spaceWidth :: "string \<Rightarrow> nat" where
  "spaceWidth s =
     (case s of
        [] \<Rightarrow> 0
      | c # r \<Rightarrow>
          if c \<in> set [CHR 0x09, CHR 0x0A, CHR 0x0B, CHR 0x0C, CHR 0x0D, CHR 0x20] then 1
          else if take 2 s \<in> set [[CHR 0xC2, CHR 0x85], [CHR 0xC2, CHR 0xA0]] then 2
          else if take 3 s \<in> set [[CHR 0xE1, CHR 0x9A, CHR 0x80], [CHR 0xE2, CHR 0x80, CHR 0xA8],
                    [CHR 0xE2, CHR 0x80, CHR 0xA9], [CHR 0xE2, CHR 0x80, CHR 0xAF],
                    [CHR 0xE2, CHR 0x81, CHR 0x9F], [CHR 0xE3, CHR 0x80, CHR 0x80]]
                  \<or> (take 2 s = [CHR 0xE2, CHR 0x80] \<and> length s \<ge> 3
                      \<and> CHR 0x80 \<le> s ! 2 \<and> s ! 2 \<le> CHR 0x8A) then 3
          else 0)"

fun FieldsFrom :: "string \<Rightarrow> string \<Rightarrow> string list" where
  "FieldsFrom cur [] = (if cur = [] then [] else [cur])"
| "FieldsFrom cur (c # cs) =
     (if spaceWidth (c # cs) = 0 then FieldsFrom (cur @ [c]) cs
      else (if cur = [] then [] else [cur]) @ FieldsFrom [] (drop (spaceWidth (c # cs) - 1) cs))"

definition Fields :: "string \<Rightarrow> string list" where
  "Fields s = FieldsFrom [] s"

text \<open>
  \<open>strings.TrimSpace\<close> on ASCII text. Its only caller here is \<open>cleanColumnName\<close>, which
  applies it to a string that the regular expression has already reduced to ASCII
  letters, digits and underscores.
\<close>

definition isAsciiSpace :: "char \<Rightarrow> bool" where
  "isAsciiSpace c = (c \<in> set [CHR 0x09, CHR 0x0A, CHR 0x0B, CHR 0x0C, CHR 0x0D, CHR 0x20])"

definition TrimSpace :: "string \<Rightarrow> string" where
  "TrimSpace s = rev (dropWhile isAsciiSpace (rev (dropWhile isAsciiSpace s)))"

section \<open>Identifier sanitizer\<close>

text \<open>
  \<open>removeParentheses\<close> deletes the matches of \<open>[()]\<close>; \<open>cleanColumnName\<close> deletes the
  matches of \<open>[^a-zA-Z0-9_]\<close> (every byte outside the class, since a character that
  is not ASCII matches the negated class as a whole) and trims the result.
\<close>

definition removeParentheses :: "string \<Rightarrow> string" where
  "removeParentheses input = filter (\<lambda>c. c \<noteq> CHR ''('' \<and> c \<noteq> CHR '')'') input"

definition isWordChar :: "char \<Rightarrow> bool" where
  "isWordChar c =
     ((CHR ''a'' \<le> c \<and> c \<le> CHR ''z'') \<or> (CHR ''A'' \<le> c \<and> c \<le> CHR ''Z'')
      \<or> (CHR ''0'' \<le> c \<and> c \<le> CHR ''9'') \<or> c = CHR ''_'')"

definition cleanColumnName :: "string \<Rightarrow> string" where
  "cleanColumnName column = TrimSpace (filter isWordChar column)"

definition columnTypes :: "(string \<times> string) list" where
  "columnTypes =
     [(''donor_age_at_diagnosis'', ''BIGINT''), (''gc_content'', ''FLOAT''),
      (''nullomers_created'', ''VARCHAR''), (''donor_id'', ''VARCHAR''),
      (''AF'', ''FLOAT''), (''AF_eas'', ''FLOAT''), (''AF_afr'', ''FLOAT''),
      (''AF_fin'', ''FLOAT''), (''AF_ami'', ''FLOAT''), (''AF_amr'', ''FLOAT''),
      (''AF_nfe'', ''FLOAT''), (''AF_sas'', ''FLOAT''), (''AF_asj'', ''FLOAT'')]"

definition numericTypes :: "(string \<times> bool) list" where
  "numericTypes =
     [(''BIGINT'', True), (''INTEGER'', True), (''FLOAT'', True), (''DOUBLE'', True)]"

definition isNumericColumn :: "string \<Rightarrow> bool" where
  "isNumericColumn column =
     (case map_of columnTypes (cleanColumnName column) of
        None \<Rightarrow> False
      | Some colType \<Rightarrow> (case map_of numericTypes colType of None \<Rightarrow> False | Some b \<Rightarrow> b))"

section \<open>The tabular executor\<close>

text \<open>
  The database is an external collaborator. A handler sees it through \<open>db.Query\<close>,
  which fails or gives a cursor, and \<open>db.QueryRow(q).Scan(&n)\<close>, which fails or gives
  an integer. A cursor has its column names (\<open>rows.Columns()\<close> may fail) and one entry
  for each \<open>rows.Next()\<close>: what \<open>rows.Scan\<close> gives there, an error or the cells of the
  row. A cell scanned into an \<open>interface{}\<close> is \<open>nil\<close>, a byte slice, a string, or a
  value of another type (numbers, booleans, times), which the handlers never inspect.
\<close>

datatype 'v cell = GoNil | Bytes string | GoString string | Other 'v

record 'v sql_rows =
  Columns :: "string + string list"
  Scans :: "(string + 'v cell list) list"

record 'v executor =
  Query :: "string \<Rightarrow> string + 'v sql_rows"
  QueryRowInt :: "string \<Rightarrow> string + int"

text \<open>
  A response is the HTTP status and the JSON body. The model of a handler returns the
  response and the SQL texts it sent to the database, in order.
\<close>

datatype 'v body =
    ErrorBody string
  | TableBody "string list" "'v cell list list"
  | PageBody "string list" "'v cell list list" int

record 'b response =
  status :: nat
  body :: 'b

definition StatusOK :: nat where "StatusOK = 200"
definition StatusBadRequest :: nat where "StatusBadRequest = 400"
definition StatusNotFound :: nat where "StatusNotFound = 404"
definition StatusInternalServerError :: nat where "StatusInternalServerError = 500"

section \<open>Result materializer\<close>

text \<open>
  The loop over \<open>rows.Next()\<close>: a scan error ends the request, otherwise the row is
  converted cell by cell and appended to \<open>data\<close>. \<open>makeHandler\<close> converts with
  \<^verbatim>\<open>if b, ok := val.([]byte); ok { row[i] = string(b) }\<close>
  and \<open>getNullomersHandler\<close> adds
  \<^verbatim>\<open>if v == nil { row[i] = nil }\<close>.
\<close>

definition bytesToString :: "'v cell \<Rightarrow> 'v cell" where
  "bytesToString val = (case val of Bytes b \<Rightarrow> GoString b | _ \<Rightarrow> val)"

definition bytesToStringNil :: "'v cell \<Rightarrow> 'v cell" where
  "bytesToStringNil v =
     (let r = (case v of Bytes b \<Rightarrow> GoString b | _ \<Rightarrow> v)
      in if v = GoNil then GoNil else r)"

fun scanRows :: "('v cell \<Rightarrow> 'v cell) \<Rightarrow> (string + 'v cell list) list \<Rightarrow> 'v cell list list
                 \<Rightarrow> string + 'v cell list list" where
  "scanRows conv [] data = Inr data"
| "scanRows conv (Inl err # rest) data = Inl err"
| "scanRows conv (Inr row # rest) data = scanRows conv rest (data @ [map conv row])"

definition makeHandler :: "'v executor \<Rightarrow> string \<Rightarrow> 'v body response \<times> string list" where
  "makeHandler db query =
     (case Query db query of
        Inl err \<Rightarrow> (\<lparr>status = StatusInternalServerError, body = ErrorBody err\<rparr>, [query])
      | Inr rows \<Rightarrow>
          (case Columns rows of
             Inl err \<Rightarrow> (\<lparr>status = StatusInternalServerError, body = ErrorBody err\<rparr>, [query])
           | Inr columns \<Rightarrow>
               (case scanRows bytesToString (Scans rows) [] of
                  Inl err \<Rightarrow> (\<lparr>status = StatusInternalServerError, body = ErrorBody err\<rparr>, [query])
                | Inr data \<Rightarrow> (\<lparr>status = StatusOK, body = TableBody columns data\<rparr>, [query]))))"

section \<open>Filter compiler and pagination planner: \<open>getNullomersHandler\<close>\<close>

text \<open>
  The query parameters that \<open>getNullomersHandler\<close> reads with \<open>c.Query\<close>, which gives
  the empty string for an absent parameter.
\<close>

record nullomers_request =
  length_param :: string
  pageStr :: string
  limitStr :: string
  filters :: string
  specialFilters :: string
  column :: string
  filterType :: string
  filterValue :: string

text \<open>
  The SQL templates are transcribed with every run of white space collapsed to one
  space, and with the white space at the two ends of a template dropped. The \<open>FROM\<close>
  clause of a query is kept as the list of its joins and rendered into the text.
\<close>

record join_item =
  jkind :: string
  jtable :: string
  jalias :: string
  jcond :: string

definition renderJoin :: "join_item \<Rightarrow> string" where
  "renderJoin j =
     jkind j @ '' '' @ jtable j @ (if jalias j = [] then [] else '' '' @ jalias j)
     @ (if jcond j = [] then [] else '' '' @ jcond j)"

definition renderJoins :: "join_item list \<Rightarrow> string" where
  "renderJoins js = Join (map renderJoin js) '' ''"

definition gcContentColumn :: string where
  "gcContentColumn =
     ''ROUND( 100.0 * ( LENGTH(n.nullomers_created) - ''
     @ ''LENGTH(REPLACE(UPPER(n.nullomers_created), '' @ [CHR 0x27] @ ''G''
     @ [CHR 0x27] @ '', '' @ [CHR 0x27] @ [CHR 0x27]
     @ '')) - LENGTH(REPLACE(UPPER(n.nullomers_created), '' @ [CHR 0x27] @ ''C''
     @ [CHR 0x27] @ '', '' @ [CHR 0x27] @ [CHR 0x27]
     @ '')) ) / LENGTH(n.nullomers_created), 2 ) * -1 AS gc_content''"

definition baseJoins :: "string \<Rightarrow> join_item list" where
  \<open>baseJoins length_q =
     [\<lparr>jkind = ''FROM'', jtable = ''neomers_'' @ length_q, jalias = ''n'', jcond = []\<rparr>,
      \<lparr>jkind = ''JOIN'', jtable = ''cancer_type_details'', jalias = ''c'',
        jcond = ''USING (Project_Code)''\<rparr>,
      \<lparr>jkind = ''LEFT JOIN'', jtable = ''donor_id_mapping'', jalias = ''di'',
        jcond = ''ON CAST(n."Donor_ID" AS INT) = di."Donor_ID"''\<rparr>,
      \<lparr>jkind = ''LEFT JOIN'', jtable = ''donor_data'', jalias = ''d'',
        jcond = ''ON di.Actual_Donor_ID = d.icgc_donor_id''\<rparr>]\<close>

definition baseQuery :: "string \<Rightarrow> string" where
  "baseQuery length_q =
     ''WITH base AS ( SELECT n.* EXCLUDE (Donor_ID), c.*, d.*, di.Tumor_Sample_Barcode, ''
     @ ''di.Matched_Norm_Sample_Barcode, '' @ gcContentColumn @ '' ''
     @ renderJoins (baseJoins length_q) @ '' ) SELECT * FROM base''"

definition countQuery :: "string \<Rightarrow> string \<Rightarrow> string" where
  "countQuery length_q finalWhere =
     ''WITH base AS ( SELECT n.*, c.*, d.*, '' @ gcContentColumn @ '' ''
     @ renderJoins (baseJoins length_q) @ '' ) SELECT COUNT(*) FROM base '' @ finalWhere"

definition pageQuery :: "string \<Rightarrow> string \<Rightarrow> int \<Rightarrow> int \<Rightarrow> string" where
  "pageQuery length_q finalWhere limit offset =
     baseQuery length_q @ '' '' @ finalWhere @ '' LIMIT '' @ Itoa limit @ '' OFFSET '' @ Itoa offset"

subsection \<open>Range filter\<close>

definition betweenClause :: "string \<Rightarrow> string \<Rightarrow> string \<Rightarrow> string" where
  \<open>betweenClause col minVal maxVal =
     ''CAST("'' @ col @ ''" AS FLOAT) >= '' @ minVal
     @ '' AND CAST("'' @ col @ ''" AS FLOAT) <= '' @ maxVal\<close>

subsection \<open>Legacy filter string\<close>

definition castClause :: "string \<Rightarrow> string \<Rightarrow> string \<Rightarrow> string" where
  \<open>castClause col op val = ''CAST("'' @ col @ ''" AS FLOAT) '' @ op @ '' '' @ val\<close>

text \<open>The body of the loop over the conditions: \<open>whereClauses\<close> before and after.\<close>

definition legacyStep :: "string list \<Rightarrow> string \<Rightarrow> string list" where
  "legacyStep whereClauses cond =
     (let parts = Fields cond
      in if length parts \<ge> 3
         then (let col = cleanColumnName (parts ! 0);
                   cond' = (if isNumericColumn col
                            then castClause col (parts ! 1) (removeParentheses (parts ! 2))
                            else cond)
               in whereClauses @ [cond'])
         else whereClauses)"

subsection \<open>Special filters\<close>

definition subJoins :: "string \<Rightarrow> join_item list" where
  \<open>subJoins length_q =
     [\<lparr>jkind = ''FROM'', jtable = ''neomers_'' @ length_q, jalias = [], jcond = []\<rparr>,
      \<lparr>jkind = ''JOIN'', jtable = ''cancer_type_details'', jalias = [],
        jcond = ''USING (Project_Code)''\<rparr>,
      \<lparr>jkind = ''LEFT JOIN'', jtable = ''donor_id_mapping'', jalias = ''di'',
        jcond = ''ON CAST(n."Donor_ID" AS INT) = di."Donor_ID"''\<rparr>,
      \<lparr>jkind = ''LEFT JOIN'', jtable = ''donor_data'', jalias = ''d'',
        jcond = ''ON di.Actual_Donor_ID = d.icgc_donor_id''\<rparr>]\<close>

definition subQuery :: "join_item list \<Rightarrow> int \<Rightarrow> string" where
  "subQuery joins n =
     ''nullomers_created IN ( SELECT nullomers_created '' @ renderJoins joins
     @ '' GROUP BY nullomers_created HAVING COUNT(DISTINCT donor_id) >= '' @ Itoa n @ '' )''"

text \<open>
  The body of the loop over the directives. \<open>strings.Split\<close> never gives an empty
  slice, so \<open>sf[0]\<close> exists.
\<close>

definition specialStep :: "(string \<Rightarrow> join_item list) \<Rightarrow> string \<Rightarrow> string list \<Rightarrow> string \<Rightarrow> string list" where
  "specialStep joins length_q whereClauses part =
     (let sf = Split part '';''
      in if hd sf = ''at_least_X_distinct_patients'' \<and> length sf = 2
         then (case Atoi (sf ! 1) of
                 (n, None) \<Rightarrow>
                   if n > 0 then whereClauses @ [subQuery (joins length_q) n] else whereClauses
               | (n, Some err) \<Rightarrow> whereClauses)
         else whereClauses)"

subsection \<open>The predicate of a request\<close>

definition rangeOrLegacy :: "nullomers_request \<Rightarrow> string list" where
  "rangeOrLegacy req =
     (if filterType req = ''between'' \<and> column req \<noteq> [] \<and> filterValue req \<noteq> []
      then (let parts = Split (filterValue req) '',''
            in if length parts = 2
               then [betweenClause (column req) (parts ! 0) (parts ! 1)]
               else [])
      else if filters req \<noteq> []
      then foldl legacyStep [] (Split (filters req) '' AND '')
      else [])"

definition buildWhereClauses :: "nullomers_request \<Rightarrow> string list" where
  "buildWhereClauses req =
     (let whereClauses = rangeOrLegacy req
      in if specialFilters req \<noteq> []
         then foldl (specialStep subJoins (length_param req)) whereClauses
                (Split (specialFilters req) ''|'')
         else whereClauses)"

definition finalWhereOf :: "string list \<Rightarrow> string" where
  "finalWhereOf whereClauses =
     (if length whereClauses > 0 then '' WHERE '' @ Join whereClauses '' AND '' else [])"

subsection \<open>Pagination\<close>

definition parsePage :: "string \<Rightarrow> int" where
  "parsePage s = (case Atoi s of (p, None) \<Rightarrow> if p \<ge> 0 then p else 0 | (p, Some err) \<Rightarrow> 0)"

definition parseLimit :: "string \<Rightarrow> int" where
  "parseLimit s =
     (case Atoi s of
        (l, None) \<Rightarrow> if l > 0 \<and> l \<le> 10000 then l else 10000
      | (l, Some err) \<Rightarrow> 10000)"

subsection \<open>The handler\<close>

definition materializePage :: "'v executor \<Rightarrow> string \<Rightarrow> string \<Rightarrow> int \<Rightarrow> 'v body response \<times> string list" where
  "materializePage db countQ pageQ totalCount =
     (case Query db pageQ of
        Inl err \<Rightarrow>
          (\<lparr>status = StatusInternalServerError, body = ErrorBody err\<rparr>, [countQ, pageQ])
      | Inr rows \<Rightarrow>
          (case Columns rows of
             Inl err \<Rightarrow>
               (\<lparr>status = StatusInternalServerError, body = ErrorBody err\<rparr>, [countQ, pageQ])
           | Inr cols \<Rightarrow>
               (case scanRows bytesToStringNil (Scans rows) [] of
                  Inl err \<Rightarrow>
                    (\<lparr>status = StatusInternalServerError, body = ErrorBody err\<rparr>,
                     [countQ, pageQ])
                | Inr data \<Rightarrow>
                    (\<lparr>status = StatusOK, body = PageBody cols data totalCount\<rparr>,
                     [countQ, pageQ]))))"

definition getNullomersHandler :: "'v executor \<Rightarrow> nullomers_request \<Rightarrow> 'v body response \<times> string list" where
  "getNullomersHandler db req =
     (if length_param req = []
      then (\<lparr>status = StatusBadRequest,
             body = ErrorBody (''Missing required parameter 'length'' @ [CHR 0x27])\<rparr>, [])
      else
        (let page = parsePage (pageStr req);
             limit = parseLimit (limitStr req);
             finalWhere = finalWhereOf (buildWhereClauses req);
             countQ = countQuery (length_param req) finalWhere
         in (case QueryRowInt db countQ of
               Inl err \<Rightarrow>
                 (\<lparr>status = StatusInternalServerError, body = ErrorBody err\<rparr>, [countQ])
             | Inr totalCount \<Rightarrow>
                 (let offset = int64 (page * limit);
                      pageQ = pageQuery (length_param req) finalWhere limit offset
                  in materializePage db countQ pageQ totalCount))))"

section \<open>Pagination of \<open>getExomeNullomersHandler\<close>\<close>

text \<open>
  The exome handler reads its paging parameters with \<open>c.DefaultQuery\<close>, which gives the
  default only when the parameter is absent, and drops the error of \<open>Atoi\<close>:
  \<^verbatim>\<open>
  page, _ := strconv.Atoi(c.DefaultQuery("page", "0"))
  limit, _ := strconv.Atoi(c.DefaultQuery("limit", "10000"))
  if limit < 1 || limit > 10000 { limit = 10000 }
  ...
  offset := page * limit
  pageQ := baseCTE + "SELECT * FROM base" + finalWhere +
      fmt.Sprintf(" LIMIT %d OFFSET %d", limit, offset)
  \<close>
  Only these lines are modelled; they are reached whenever \<open>length\<close> is not empty and
  the count query succeeds.
\<close>

definition DefaultQuery :: "string option \<Rightarrow> string \<Rightarrow> string" where
  "DefaultQuery param defaultValue = (case param of None \<Rightarrow> defaultValue | Some v \<Rightarrow> v)"

definition exomePage :: "string option \<Rightarrow> int" where
  "exomePage pageParam = fst (Atoi (DefaultQuery pageParam ''0''))"

definition exomeLimit :: "string option \<Rightarrow> int" where
  "exomeLimit limitParam =
     (let limit = fst (Atoi (DefaultQuery limitParam ''10000''))
      in if limit < 1 \<or> limit > 10000 then 10000 else limit)"

definition exomeLimitOffset :: "string option \<Rightarrow> string option \<Rightarrow> string" where
  "exomeLimitOffset pageParam limitParam =
     (let page = exomePage pageParam;
          limit = exomeLimit limitParam;
          offset = int64 (page * limit)
      in '' LIMIT '' @ Itoa limit @ '' OFFSET '' @ Itoa offset)"

section \<open>Special filters of \<open>getNullomersStatsHandler\<close> in \<open>server.go\<close>\<close>

text \<open>
  The stats handler of \<open>server.go\<close> (the variant that joins the donor tables) builds its
  base CTE from the same joins as \<open>getNullomersHandler\<close>, and the subquery of its
  special filter from a list of its own. The loop over the directives is a \<open>switch\<close> on
  \<open>sfPieces[0]\<close> with the one case \<open>at_least_X_distinct_patients\<close>, guarded by
  \<open>len(sfPieces) == 2\<close>, \<open>err == nil\<close> and \<open>distinctCount > 0\<close>: the step
  \<open>specialStep\<close>.
\<close>

definition statsBaseJoins_server :: "string \<Rightarrow> join_item list" where
  \<open>statsBaseJoins_server length_q =
     [\<lparr>jkind = ''FROM'', jtable = ''neomers_'' @ length_q, jalias = ''n'', jcond = []\<rparr>,
      \<lparr>jkind = ''JOIN'', jtable = ''cancer_type_details'', jalias = ''c'',
        jcond = ''USING (Project_Code)''\<rparr>,
      \<lparr>jkind = ''LEFT JOIN'', jtable = ''donor_id_mapping'', jalias = ''di'',
        jcond = ''ON CAST(n."Donor_ID" AS INT) = di."Donor_ID"''\<rparr>,
      \<lparr>jkind = ''LEFT JOIN'', jtable = ''donor_data'', jalias = ''d'',
        jcond = ''ON di.Actual_Donor_ID = d.icgc_donor_id''\<rparr>]\<close>

definition statsSubJoins_server :: "string \<Rightarrow> join_item list" where
  \<open>statsSubJoins_server length_q =
     [\<lparr>jkind = ''FROM'', jtable = ''neomers_'' @ length_q, jalias = [], jcond = []\<rparr>,
      \<lparr>jkind = ''JOIN'', jtable = ''cancer_type_details'', jalias = [],
        jcond = ''USING (Project_Code)''\<rparr>,
      \<lparr>jkind = ''LEFT JOIN'', jtable = ''exomes_donor_id_mapping'', jalias = ''di'',
        jcond = ''ON CAST(n."Donor_ID" AS INT) = di."Donor_ID"''\<rparr>,
      \<lparr>jkind = ''LEFT JOIN'', jtable = ''donor_data'', jalias = ''d'',
        jcond = ''ON di.Actual_Donor_ID = d.icgc_donor_id''\<rparr>]\<close>

definition statsSpecialClauses_server :: "string \<Rightarrow> string \<Rightarrow> string list \<Rightarrow> string list" where
  "statsSpecialClauses_server length_q specialFilters_q whereClauses =
     (if specialFilters_q \<noteq> []
      then foldl (specialStep statsSubJoins_server length_q) whereClauses
             (Split specialFilters_q ''|'')
      else whereClauses)"

section \<open>Length check of \<open>getPatientNeomersHandler\<close>\<close>

text \<open>
  \<open>getPatientNeomersHandler\<close> reads \<open>donor_id\<close> and \<open>length\<close> and checks them before
  it names a table:
  \<^verbatim>\<open>
  if donorID == "" { c.JSON(http.StatusBadRequest, gin.H{"error": "Missing donor_id"}); return }
  if lengthStr == "" { c.JSON(http.StatusBadRequest, gin.H{"error": "Missing length"}); return }
  length, err := strconv.Atoi(lengthStr)
  if err != nil || length < 11 || length > 20 {
      c.JSON(http.StatusBadRequest, gin.H{"error": "Invalid length. Must be between 11 and 20."})
      return
  }
  \<close>
  Only these checks are modelled: the answer they give, or \<^term>\<open>None\<close> when the handler
  goes on to its queries.
\<close>

definition patientNeomersChecks :: "string \<Rightarrow> string \<Rightarrow> (nat \<times> string) option" where
  "patientNeomersChecks donorID lengthStr =
     (if donorID = [] then Some (StatusBadRequest, ''Missing donor_id'')
      else if lengthStr = [] then Some (StatusBadRequest, ''Missing length'')
      else (case Atoi lengthStr of
              (length_q, err) \<Rightarrow>
                if err \<noteq> None \<or> length_q < 11 \<or> length_q > 20
                then Some (StatusBadRequest, ''Invalid length. Must be between 11 and 20.'')
                else None))"

section \<open>Single-entity lookups\<close>

text \<open>
  \<open>getPatientDetailsHandler\<close> makes four calls to the database, each a parameter of the
  model: the lookup of the internal donor key
  (\<open>QueryRow(...).Scan(&internalID)\<close>), the lookup of a project code in \<open>neomers_15\<close>
  (\<open>QueryRow(...).Scan(&projectCode)\<close>), the listing of the columns of \<open>donor_data\<close>
  (\<open>db.Query("SELECT * FROM donor_data LIMIT 0")\<close>, then \<open>Columns()\<close>, whose error the
  handler ignores), and the row of the donor (\<open>QueryRow(query, projectCode, actualID)\<close>).
  A lookup that finds no row fails with \<open>sql.ErrNoRows\<close>, like any other failure.
  \<open>row.Scan\<close> also fails when the row does not have as many cells as destinations.
\<close>

record 'v patient_db =
  mappingLookup :: "string \<Rightarrow> string + int"
  projectLookup :: "int \<Rightarrow> string + string"
  donorDataColumns :: "string + (string + string list)"
  patientLookup :: "string \<Rightarrow> string \<Rightarrow> string + 'v cell list"

datatype 'v patient_body =
    PatientError string
  | Patient "(string \<rightharpoonup> 'v cell) option"

definition ErrNoRows :: string where
  "ErrNoRows = ''sql: no rows in result set''"

text \<open>The loop that fills \<open>patientMap\<close>, a Go map from column name to value.\<close>

definition patientMapOf :: "string list \<Rightarrow> 'v cell list \<Rightarrow> (string \<rightharpoonup> 'v cell)" where
  "patientMapOf colNames vals =
     foldl (\<lambda>patientMap (name, v). patientMap(name \<mapsto> bytesToString v)) Map.empty
       (zip colNames vals)"

definition scanPatient :: "string list \<Rightarrow> string + 'v cell list \<Rightarrow> 'v patient_body response" where
  "scanPatient colNames row =
     (case row of
        Inl err \<Rightarrow> \<lparr>status = StatusOK, body = Patient None\<rparr>
      | Inr vals \<Rightarrow>
          if length vals \<noteq> length colNames
          then \<lparr>status = StatusOK, body = Patient None\<rparr>
          else \<lparr>status = StatusOK, body = Patient (Some (patientMapOf colNames vals))\<rparr>)"

definition getPatientDetailsHandler :: "'v patient_db \<Rightarrow> string \<Rightarrow> 'v patient_body response" where
  "getPatientDetailsHandler db actualID =
     (if actualID = []
      then \<lparr>status = StatusBadRequest, body = PatientError ''Missing donor_id''\<rparr>
      else
        (case mappingLookup db actualID of
           Inl err \<Rightarrow> \<lparr>status = StatusOK, body = Patient None\<rparr>
         | Inr internalID \<Rightarrow>
             (case projectLookup db internalID of
                Inl err \<Rightarrow> \<lparr>status = StatusOK, body = Patient None\<rparr>
              | Inr projectCode \<Rightarrow>
                  (case donorDataColumns db of
                     Inl err \<Rightarrow> \<lparr>status = StatusInternalServerError, body = PatientError err\<rparr>
                   | Inr columns \<Rightarrow>
                       (let colNames = (case columns of Inl err \<Rightarrow> [] | Inr names \<Rightarrow> names)
                                       @ [''Cancer_Type'', ''Organ'']
                        in scanPatient colNames (patientLookup db projectCode actualID))))))"

text \<open>
  \<open>getExomePatientDetailsHandler\<close> lists the columns of \<open>exome_donor_data\<close> first and then
  fetches the row whose \<open>bcr_patient_barcode\<close> is the donor.
\<close>

record 'v exome_patient_db =
  exomeDonorDataColumns :: "string + (string + string list)"
  exomePatientLookup :: "string \<Rightarrow> string + 'v cell list"

definition getExomePatientDetailsHandler :: "'v exome_patient_db \<Rightarrow> string \<Rightarrow> 'v patient_body response" where
  "getExomePatientDetailsHandler db actualID =
     (if actualID = []
      then \<lparr>status = StatusBadRequest, body = PatientError ''Missing donor_id''\<rparr>
      else
        (case exomeDonorDataColumns db of
           Inl err \<Rightarrow> \<lparr>status = StatusInternalServerError, body = PatientError err\<rparr>
         | Inr cols \<Rightarrow>
             (let colNames = (case cols of Inl err \<Rightarrow> [] | Inr names \<Rightarrow> names)
              in scanPatient colNames (exomePatientLookup db actualID))))"

section \<open>Set-similarity engine: the Jaccard query\<close>

text \<open>
  The two Jaccard handlers send one SQL statement, the same but for the label column
  (\<open>Cancer_Type\<close> or \<open>Organ\<close>). The statement is embedded here clause by clause over
  the two tables it reads. A column value is a \<^typ>\<open>string option\<close>, \<^term>\<open>None\<close>
  being NULL. The SQL comparison \<open>a = b\<close> holds only for two equal values that are not
  NULL; \<open>GROUP BY\<close> and \<open>DISTINCT\<close> keep NULL as a value of its own;
  \<open>COUNT(DISTINCT x)\<close> skips NULL.
\<close>

record neomer_row =
  nullomers_created :: "string option"
  Project_Code :: "string option"

record cancer_type_detail =
  ctd_Project_Code :: "string option"
  Cancer_Type :: "string option"
  Organ :: "string option"

definition sql_eq :: "'a option \<Rightarrow> 'a option \<Rightarrow> bool" where
  "sql_eq a b = (a \<noteq> None \<and> b \<noteq> None \<and> a = b)"

definition count_distinct :: "'a option list \<Rightarrow> int" where
  "count_distinct xs = int (length (remdups [x. Some x \<leftarrow> xs]))"

definition COALESCE :: "int option \<Rightarrow> int \<Rightarrow> int" where
  "COALESCE v d = (case v of None \<Rightarrow> d | Some x \<Rightarrow> x)"

text \<open>
  \<^verbatim>\<open>
  joined_data AS (SELECT n.nullomers_created, c.<Label>
                  FROM <table> n JOIN cancer_type_details c USING (Project_Code))
  \<close>
\<close>

definition joined_data :: "(cancer_type_detail \<Rightarrow> string option) \<Rightarrow> neomer_row list
    \<Rightarrow> cancer_type_detail list \<Rightarrow> (string option \<times> string option) list" where
  "joined_data label n c =
     [(nullomers_created nr, label cr). nr \<leftarrow> n, cr \<leftarrow> c,
        sql_eq (Project_Code nr) (ctd_Project_Code cr)]"

text \<open>
  \<^verbatim>\<open>
  cancer_counts AS (SELECT <Label>, COUNT(DISTINCT nullomers_created) AS count
                    FROM joined_data GROUP BY <Label>)
  \<close>
\<close>

definition label_counts :: "(string option \<times> string option) list \<Rightarrow> (string option \<times> int) list" where
  "label_counts jd =
     [(l, count_distinct [s. (s, l') \<leftarrow> jd, l' = l]). l \<leftarrow> remdups (map snd jd)]"

text \<open>\<^verbatim>\<open>all_cancer_types AS (SELECT DISTINCT <Label> FROM cancer_counts)\<close>\<close>

definition all_labels :: "(string option \<times> int) list \<Rightarrow> string option list" where
  "all_labels counts = remdups (map fst counts)"

text \<open>
  \<^verbatim>\<open>
  pairs AS (SELECT a.<Label> AS A, b.<Label> AS B
            FROM all_cancer_types a CROSS JOIN all_cancer_types b)
  \<close>
\<close>

definition pairs :: "string option list \<Rightarrow> (string option \<times> string option) list" where
  "pairs ls = [(a, b). a \<leftarrow> ls, b \<leftarrow> ls]"

text \<open>
  \<^verbatim>\<open>
  intersections AS (
    SELECT jd1.<Label> AS A, jd2.<Label> AS B,
           COUNT(DISTINCT jd1.nullomers_created) AS intersection_count
    FROM joined_data jd1 JOIN joined_data jd2
      ON jd1.nullomers_created = jd2.nullomers_created
    GROUP BY jd1.<Label>, jd2.<Label>)
  \<close>
\<close>

definition self_join :: "(string option \<times> string option) list
    \<Rightarrow> (string option \<times> string option \<times> string option) list" where
  "self_join jd = [(s1, l1, l2). (s1, l1) \<leftarrow> jd, (s2, l2) \<leftarrow> jd, sql_eq s1 s2]"

definition intersections :: "(string option \<times> string option) list
    \<Rightarrow> ((string option \<times> string option) \<times> int) list" where
  "intersections jd =
     [(g, count_distinct [s. (s, l1, l2) \<leftarrow> self_join jd, (l1, l2) = g]).
        g \<leftarrow> remdups (map snd (self_join jd))]"

text \<open>
  The final \<open>SELECT\<close>:
  \<^verbatim>\<open>
  SELECT p.A, p.B,
         COALESCE(i.intersection_count, 0) AS intersection_count,
         (c1.count + c2.count - COALESCE(i.intersection_count, 0)) AS union_count,
         CASE WHEN p.A = p.B THEN 1.0
              WHEN (c1.count + c2.count - COALESCE(i.intersection_count, 0)) = 0 THEN 0.0
              ELSE ROUND(CAST(COALESCE(i.intersection_count, 0) AS DOUBLE)
                         / (c1.count + c2.count - COALESCE(i.intersection_count, 0)), 4)
         END AS jaccard_index
  FROM pairs p
  LEFT JOIN intersections i ON p.A = i.A AND p.B = i.B
  JOIN cancer_counts c1 ON p.A = c1.<Label>
  JOIN cancer_counts c2 ON p.B = c2.<Label>
  ORDER BY p.A, p.B
  \<close>
\<close>

text \<open>
  The quotient of the \<open>ELSE\<close> branch is a division of DOUBLEs: the dividend is cast
  explicitly, the divisor, a BIGINT, implicitly. The constants \<open>1.0\<close> and \<open>0.0\<close> are
  exact.
\<close>

record jaccard_sql_row =
  col_a :: "string option"
  col_b :: "string option"
  col_intersection_count :: int
  col_union_count :: int
  col_jaccard_index :: real

definition left_join_intersections :: "string option \<times> string option
    \<Rightarrow> ((string option \<times> string option) \<times> int) list \<Rightarrow> int option list" where
  "left_join_intersections p isect =
     (let matches = [Some i. ((a, b), i) \<leftarrow> isect, sql_eq (fst p) a \<and> sql_eq (snd p) b]
      in if matches = [] then [None] else matches)"

definition select_row :: "string option \<times> string option \<Rightarrow> int option \<Rightarrow> int \<Rightarrow> int
    \<Rightarrow> jaccard_sql_row" where
  "select_row p i c1 c2 =
     \<lparr>col_a = fst p, col_b = snd p,
      col_intersection_count = COALESCE i 0,
      col_union_count = c1 + c2 - COALESCE i 0,
      col_jaccard_index =
        (if sql_eq (fst p) (snd p) then 1.0
         else if c1 + c2 - COALESCE i 0 = 0 then 0.0
         else ROUND (divide_double (CAST_AS_DOUBLE (COALESCE i 0))
                                   (CAST_AS_DOUBLE (c1 + c2 - COALESCE i 0))) 4)\<rparr>"

definition joined_rows :: "(string option \<times> string option) list \<Rightarrow> jaccard_sql_row list" where
  "joined_rows jd =
     [select_row p i c1 c2.
        p \<leftarrow> pairs (all_labels (label_counts jd)),
        i \<leftarrow> left_join_intersections p (intersections jd),
        (l1, c1) \<leftarrow> label_counts jd, sql_eq (fst p) l1,
        (l2, c2) \<leftarrow> label_counts jd, sql_eq (snd p) l2]"

text \<open>
  \<open>ORDER BY p.A, p.B\<close> compares strings byte by byte and puts NULL last
  (DuckDB's default for an ascending order).
\<close>

definition order_key :: "string option \<Rightarrow> nat \<times> string" where
  "order_key v = (case v of None \<Rightarrow> (1, []) | Some s \<Rightarrow> (0, s))"

definition jaccard_query :: "(cancer_type_detail \<Rightarrow> string option) \<Rightarrow> neomer_row list
    \<Rightarrow> cancer_type_detail list \<Rightarrow> jaccard_sql_row list" where
  "jaccard_query label n c =
     sort_key (\<lambda>r. (order_key (col_a r), order_key (col_b r)))
       (joined_rows (joined_data label n c))"

section \<open>The Jaccard handlers\<close>

text \<open>
  The database of the Jaccard handlers: its per-length tables by name, and
  \<open>cancer_type_details\<close>. The query on a table that does not exist fails.
\<close>

record jaccard_db =
  neomers_tables :: "string \<Rightarrow> neomer_row list option"
  cancer_type_details :: "cancer_type_detail list"

record JaccardResult =
  label_a :: string
  label_b :: string
  Intersection :: int
  Union_count :: int
  JaccardIndex :: real

datatype jaccard_body =
    JaccardError string
  | JaccardIndices "JaccardResult list"

text \<open>
  \<open>rows.Scan\<close> into the fields of a \<open>JaccardResult\<close>; a NULL cannot be stored in a Go
  \<open>string\<close>, so a row with a NULL label makes the scan fail.
\<close>

fun scanJaccard :: "jaccard_sql_row list \<Rightarrow> JaccardResult list \<Rightarrow> string + JaccardResult list" where
  "scanJaccard [] results = Inr results"
| "scanJaccard (r # rest) results =
     (case (col_a r, col_b r) of
        (Some a, Some b) \<Rightarrow>
          scanJaccard rest
            (results @ [\<lparr>label_a = a, label_b = b, Intersection = col_intersection_count r,
                          Union_count = col_union_count r, JaccardIndex = col_jaccard_index r\<rparr>])
      | _ \<Rightarrow> Inl ''Failed to parse query results'')"

text \<open>
  The handler, for the label column \<open>label\<close>: \<open>getJaccardIndexHandler\<close> is the instance
  for \<open>Cancer_Type\<close> and \<open>getJaccardIndexOrgansHandler\<close> the one for \<open>Organ\<close>. The model
  returns the response and the names of the tables it queried.
\<close>

definition jaccardHandler :: "(cancer_type_detail \<Rightarrow> string option) \<Rightarrow> jaccard_db \<Rightarrow> string
    \<Rightarrow> jaccard_body response \<times> string list" where
  "jaccardHandler label db K =
     (if K = []
      then (\<lparr>status = StatusBadRequest,
             body = JaccardError (''Missing parameter 'K'' @ [CHR 0x27])\<rparr>, [])
      else if snd (Atoi K) \<noteq> None \<or> K = ''0''
      then (\<lparr>status = StatusBadRequest,
             body = JaccardError (''Parameter 'K' must be a positive integer'')\<rparr>, [])
      else
        (let tableName = ''neomers_'' @ K
         in (case neomers_tables db tableName of
               None \<Rightarrow>
                 (\<lparr>status = StatusInternalServerError,
                   body = JaccardError ''Failed to execute query''\<rparr>, [tableName])
             | Some n \<Rightarrow>
                 (case scanJaccard (jaccard_query label n (cancer_type_details db)) [] of
                    Inl err \<Rightarrow>
                      (\<lparr>status = StatusInternalServerError, body = JaccardError err\<rparr>,
                       [tableName])
                  | Inr results \<Rightarrow>
                      (\<lparr>status = StatusOK, body = JaccardIndices results\<rparr>, [tableName])))))"

definition getJaccardIndexHandler :: "jaccard_db \<Rightarrow> string \<Rightarrow> jaccard_body response \<times> string list" where
  "getJaccardIndexHandler db K = jaccardHandler Cancer_Type db K"

definition getJaccardIndexOrgansHandler :: "jaccard_db \<Rightarrow> string \<Rightarrow> jaccard_body response \<times> string list" where
  "getJaccardIndexOrgansHandler db K = jaccardHandler Organ db K"

section \<open>The similarity result as the specification words it\<close>

text \<open>
  The definitions of this section follow the specification, not the code: over the
  (sequence, label) pairs of the joined dataset, the set of distinct sequences of a
  label, the labels drawn from the dataset, and the result row of an ordered pair of
  labels with its intersection count, union count and Jaccard index.
\<close>

definition spec_sequences :: "(string option \<times> string option) list \<Rightarrow> string \<Rightarrow> string set" where
  "spec_sequences jd a = {s. (Some s, Some a) \<in> set jd}"

definition spec_labels :: "(string option \<times> string option) list \<Rightarrow> string set" where
  "spec_labels jd = {a. \<exists>s. (s, Some a) \<in> set jd}"

text \<open>
  \<open>round(x, d)\<close> as the specification writes it, on the exact quotient: the nearest
  multiple of \<open>10^-d\<close>, a half going away from zero.
\<close>

definition spec_round :: "real \<Rightarrow> nat \<Rightarrow> real" where
  "spec_round x d = sgn x * of_int \<lfloor>\<bar>x\<bar> * 10 ^ d + 1 / 2\<rfloor> / 10 ^ d"

text \<open>The result row, its index a parameter: \<open>index i u\<close> for the pairs of distinct labels.\<close>

definition jaccard_result_with :: "(int \<Rightarrow> int \<Rightarrow> real) \<Rightarrow> (string option \<times> string option) list
    \<Rightarrow> string \<Rightarrow> string \<Rightarrow> JaccardResult" where
  "jaccard_result_with index jd a b =
     (let intersection_count = int (card (spec_sequences jd a \<inter> spec_sequences jd b));
          union_count = int (card (spec_sequences jd a)) + int (card (spec_sequences jd b))
                        - intersection_count
      in \<lparr>label_a = a, label_b = b,
          Intersection = intersection_count,
          Union_count = union_count,
          JaccardIndex =
            (if a = b then 1
             else if union_count = 0 then 0
             else index intersection_count union_count)\<rparr>)"

text \<open>The row of the specification: \<open>round(intersection_count / union_count, 4)\<close>.\<close>

definition spec_jaccard_result :: "(string option \<times> string option) list \<Rightarrow> string \<Rightarrow> string
    \<Rightarrow> JaccardResult" where
  "spec_jaccard_result jd a b =
     jaccard_result_with (\<lambda>i u. spec_round (real_of_int i / real_of_int u) 4) jd a b"

text \<open>
  The row with the index rounded in double precision: with \<open>D x\<close> the double nearest
  to \<open>x\<close>, the quotient is \<open>q = D (D i / D u)\<close>, \<open>n\<close> is the integer nearest to
  \<open>D (q * 10^4)\<close>, a half going away from zero, and the index is \<open>D (n / 10^4)\<close>.
\<close>

definition double_round4 :: "int \<Rightarrow> int \<Rightarrow> real" where
  "double_round4 i u =
     (let q = binary64 (binary64 (real_of_int i) / binary64 (real_of_int u));
          m = binary64 (q * 10000);
          n = (if 0 \<le> m then \<lfloor>m + 1 / 2\<rfloor> else - \<lfloor>- m + 1 / 2\<rfloor>)
      in binary64 (real_of_int n / 10000))"

definition double_jaccard_result :: "(string option \<times> string option) list \<Rightarrow> string \<Rightarrow> string
    \<Rightarrow> JaccardResult" where
  "double_jaccard_result jd a b = jaccard_result_with double_round4 jd a b"

section \<open>Sample databases\<close>

text \<open>
  An executor on which every statement fails, as every statement on a per-length table
  that does not exist does, and a request for the length 25.
\<close>

definition missingTableExecutor :: "unit executor" where
  "missingTableExecutor =
     \<lparr>Query = (\<lambda>q. Inl ''Catalog Error: Table does not exist''),
      QueryRowInt = (\<lambda>q. Inl ''Catalog Error: Table does not exist'')\<rparr>"

definition request_length_25 :: nullomers_request where
  "request_length_25 =
     \<lparr>length_param = ''25'', pageStr = [], limitStr = [], filters = [], specialFilters = [],
      column = [], filterType = [], filterValue = []\<rparr>"

text \<open>A request for page \<open>2^62\<close> of the length 11, four rows to the page.\<close>

definition request_page_overflow :: nullomers_request where
  "request_page_overflow =
     \<lparr>length_param = ''11'', pageStr = ''4611686018427387904'', limitStr = ''4'', filters = [],
      specialFilters = [], column = [], filterType = [], filterValue = []\<rparr>"

text \<open>
  An executor that answers every statement with a table of two columns and two rows,
  holding a byte slice, a NULL, a string and a value of another type, and every count
  with 7.
\<close>

definition sampleExecutor :: "unit executor" where
  "sampleExecutor =
     \<lparr>Query = (\<lambda>q. Inr \<lparr>Columns = Inr [''nullomers_created'', ''AF''],
                          Scans = [Inr [Bytes ''ACGTACGTACG'', GoNil],
                                   Inr [GoString ''ACGTACGTACC'', Other ()]]\<rparr>),
      QueryRowInt = (\<lambda>q. Inr 7)\<rparr>"

text \<open>
  A donor database in which the donor \<open>DO1\<close> is mapped to the internal key 1 and has a
  neomer in project \<open>P1\<close> but no record in \<open>donor_data\<close>, and no other donor is known;
  and an exome donor database without any record.
\<close>

definition samplePatientDb :: "unit patient_db" where
  "samplePatientDb =
     \<lparr>mappingLookup = (\<lambda>actualID. if actualID = ''DO1'' then Inr 1 else Inl ErrNoRows),
      projectLookup = (\<lambda>internalID. if internalID = 1 then Inr ''P1'' else Inl ErrNoRows),
      donorDataColumns = Inr (Inr [''icgc_donor_id'', ''donor_sex'']),
      patientLookup = (\<lambda>projectCode actualID. Inl ErrNoRows)\<rparr>"

definition sampleExomePatientDb :: "unit exome_patient_db" where
  "sampleExomePatientDb =
     \<lparr>exomeDonorDataColumns = Inr (Inr [''bcr_patient_barcode'', ''gender'']),
      exomePatientLookup = (\<lambda>actualID. Inl ErrNoRows)\<rparr>"

text \<open>
  A length-11 dataset: two sequences in Breast (project \<open>P2\<close>), two in Lung (project
  \<open>P1\<close>), one of them shared, and a label \<open>Skin\<close> whose only row has a NULL sequence.
\<close>

definition sample_neomers :: "neomer_row list" where
  "sample_neomers =
     [\<lparr>nullomers_created = Some ''AAAAAAAAAAA'', Project_Code = Some ''P1''\<rparr>,
      \<lparr>nullomers_created = Some ''AAAAAAAAAAA'', Project_Code = Some ''P2''\<rparr>,
      \<lparr>nullomers_created = Some ''CCCCCCCCCCC'', Project_Code = Some ''P2''\<rparr>,
      \<lparr>nullomers_created = Some ''GGGGGGGGGGG'', Project_Code = Some ''P1''\<rparr>,
      \<lparr>nullomers_created = None, Project_Code = Some ''P3''\<rparr>]"

definition sample_details :: "cancer_type_detail list" where
  "sample_details =
     [\<lparr>ctd_Project_Code = Some ''P1'', Cancer_Type = Some ''Lung'', Organ = Some ''Lung''\<rparr>,
      \<lparr>ctd_Project_Code = Some ''P2'', Cancer_Type = Some ''Breast'', Organ = Some ''Breast''\<rparr>,
      \<lparr>ctd_Project_Code = Some ''P3'', Cancer_Type = Some ''Skin'', Organ = Some ''Skin''\<rparr>]"

definition sample_jaccard_db :: jaccard_db where
  "sample_jaccard_db =
     \<lparr>neomers_tables = (\<lambda>tableName. if tableName = ''neomers_11'' then Some sample_neomers else None),
      cancer_type_details = sample_details\<rparr>"

definition sample_jaccard_results :: "JaccardResult list" where
  "sample_jaccard_results =
     [\<lparr>label_a = ''Breast'', label_b = ''Breast'', Intersection = 2, Union_count = 2,
        JaccardIndex = 1\<rparr>,
      \<lparr>label_a = ''Breast'', label_b = ''Lung'', Intersection = 1, Union_count = 3,
        JaccardIndex = binary64 (3333 / 10000)\<rparr>,
      \<lparr>label_a = ''Breast'', label_b = ''Skin'', Intersection = 0, Union_count = 2,
        JaccardIndex = 0\<rparr>,
      \<lparr>label_a = ''Lung'', label_b = ''Breast'', Intersection = 1, Union_count = 3,
        JaccardIndex = binary64 (3333 / 10000)\<rparr>,
      \<lparr>label_a = ''Lung'', label_b = ''Lung'', Intersection = 2, Union_count = 2,
        JaccardIndex = 1\<rparr>,
      \<lparr>label_a = ''Lung'', label_b = ''Skin'', Intersection = 0, Union_count = 2,
        JaccardIndex = 0\<rparr>,
      \<lparr>label_a = ''Skin'', label_b = ''Breast'', Intersection = 0, Union_count = 2,
        JaccardIndex = 0\<rparr>,
      \<lparr>label_a = ''Skin'', label_b = ''Lung'', Intersection = 0, Union_count = 2,
        JaccardIndex = 0\<rparr>,
      \<lparr>label_a = ''Skin'', label_b = ''Skin'', Intersection = 0, Union_count = 0,
        JaccardIndex = 1\<rparr>]"


text \<open>
  A length-11 dataset with a tie in the fourth decimal: 800 sequences in Breast (project
  \<open>P2\<close>), of which 139 are also in Lung (project \<open>P1\<close>), so that the pair has the
  intersection count 139, the union count 800 and the exact quotient \<open>0.17375\<close>. The
  sequences are \<open>ACGTAC\<close> followed by the five base-4 digits of their number, written
  with the letters \<open>A\<close>, \<open>C\<close>, \<open>G\<close>, \<open>T\<close>.
\<close>

definition seq11 :: "nat \<Rightarrow> string" where
  "seq11 k = ''ACGTAC'' @ map (\<lambda>j. ''ACGT'' ! (k div 4 ^ j mod 4)) [4, 3, 2, 1, 0]"

definition tie_neomers :: "neomer_row list" where
  "tie_neomers =
     map (\<lambda>k. \<lparr>nullomers_created = Some (seq11 k), Project_Code = Some ''P1''\<rparr>) [0..<139]
     @ map (\<lambda>k. \<lparr>nullomers_created = Some (seq11 k), Project_Code = Some ''P2''\<rparr>) [0..<800]"

definition tie_jaccard_db :: jaccard_db where
  "tie_jaccard_db =
     \<lparr>neomers_tables = (\<lambda>tableName. if tableName = ''neomers_11'' then Some tie_neomers else None),
      cancer_type_details = sample_details\<rparr>"

text \<open>The rows that the cancer-type endpoint answers on this dataset.\<close>

definition tie_jaccard_results :: "JaccardResult list" where
  "tie_jaccard_results =
     [\<lparr>label_a = ''Breast'', label_b = ''Breast'', Intersection = 800, Union_count = 800,
        JaccardIndex = 1\<rparr>,
      \<lparr>label_a = ''Breast'', label_b = ''Lung'', Intersection = 139, Union_count = 800,
        JaccardIndex = binary64 (1737 / 10000)\<rparr>,
      \<lparr>label_a = ''Lung'', label_b = ''Breast'', Intersection = 139, Union_count = 800,
        JaccardIndex = binary64 (1737 / 10000)\<rparr>,
      \<lparr>label_a = ''Lung'', label_b = ''Lung'', Intersection = 139, Union_count = 139,
        JaccardIndex = 1\<rparr>]"

section \<open>Properties\<close>

subsection \<open>Double precision\<close>

text \<open>
  The exponent brackets a positive real between two powers of two, so \<open>binary64 x\<close> is a
  multiple of \<open>2^(e-52)\<close> at most half of that unit away from \<open>x\<close>: the relative error of
  one operation is at most \<open>2^-53\<close>.
\<close>

lemma ilog2_bounds: "0 < n \<Longrightarrow> 2 ^ ilog2 n \<le> n \<and> n < 2 ^ Suc (ilog2 n)"
proof (induction n rule: ilog2.induct)
  case (1 n)
  show ?case
  proof (cases "n < 2")
    case True
    with "1.prems" have "n = 1" by simp
    then show ?thesis by (simp add: ilog2.simps)
  next
    case False
    then have "0 < n div 2" by simp
    with "1.IH" False have ih: "2 ^ ilog2 (n div 2) \<le> n div 2" "n div 2 < 2 ^ Suc (ilog2 (n div 2))"
      by simp_all
    have s: "ilog2 n = Suc (ilog2 (n div 2))" using False by (subst ilog2.simps) simp
    from ih(1) have "2 * 2 ^ ilog2 (n div 2) \<le> n" by linarith
    moreover from ih(2) have "n < 2 * 2 ^ Suc (ilog2 (n div 2))" by linarith
    ultimately show ?thesis by (simp add: s)
  qed
qed

lemma clog2_bounds:
  assumes "0 < n"
  shows "n \<le> 2 ^ clog2 n" and "1 < n \<Longrightarrow> 2 ^ (clog2 n - 1) < n"
proof -
  show "n \<le> 2 ^ clog2 n"
  proof (cases "n \<le> 1")
    case True
    then show ?thesis by (simp add: clog2_def)
  next
    case False
    then have "0 < n - 1" by simp
    from ilog2_bounds [OF this] have "n - 1 < 2 ^ Suc (ilog2 (n - 1))" by simp
    then have "n \<le> 2 ^ Suc (ilog2 (n - 1))" by linarith
    with False show ?thesis by (simp add: clog2_def)
  qed
  show "2 ^ (clog2 n - 1) < n" if "1 < n"
  proof -
    from that have "0 < n - 1" by simp
    from ilog2_bounds [OF this] have "2 ^ ilog2 (n - 1) \<le> n - 1" by simp
    with that have "2 ^ ilog2 (n - 1) < n" by linarith
    with that show ?thesis by (simp add: clog2_def)
  qed
qed


lemma exponent_bounds:
  assumes "0 < x"
  shows "pow2 (exponent x) \<le> x" and "x < pow2 (exponent x + 1)"
proof -
  have "pow2 (exponent x) \<le> x \<and> x < pow2 (exponent x + 1)"
  proof (cases "1 \<le> x")
    case True
    define n where "n = nat \<lfloor>x\<rfloor>"
    from True have n: "0 < n" by (simp add: n_def)
    from True have nx: "real n \<le> x" "x < real n + 1" by (simp_all add: n_def)
    from ilog2_bounds [OF n] have b: "2 ^ ilog2 n \<le> n" "n < 2 ^ Suc (ilog2 n)" by simp_all
    from b(1) have "(2::real) ^ ilog2 n \<le> real n"
      by (metis of_nat_le_iff of_nat_numeral of_nat_power)
    with nx(1) have l: "(2::real) ^ ilog2 n \<le> x" by linarith
    from b(2) have "Suc n \<le> 2 ^ Suc (ilog2 n)" by simp
    then have "real (Suc n) \<le> 2 ^ Suc (ilog2 n)"
      by (metis of_nat_le_iff of_nat_numeral of_nat_power)
    with nx(2) have u: "x < 2 ^ Suc (ilog2 n)" by simp
    have e: "exponent x = int (ilog2 n)" using True by (simp add: exponent_def n_def)
    have "nat (int (ilog2 n) + 1) = Suc (ilog2 n)" by simp
    with l u show ?thesis by (simp add: e pow2_def del: power_Suc)
  next
    case False
    with assms have x1: "x < 1" by simp
    define m where "m = nat \<lceil>1 / x\<rceil>"
    from assms x1 have y1: "1 < 1 / x" by simp
    then have "1 < \<lceil>1 / x\<rceil>" by linarith
    then have m1: "1 < m" by (simp add: m_def)
    have my: "1 / x \<le> real m" "real m - 1 < 1 / x"
      using y1 by (simp_all add: m_def) linarith+
    from m1 have m0: "0 < m" by simp
    from clog2_bounds(1) [OF m0] have "real m \<le> 2 ^ clog2 m"
      by (metis of_nat_le_iff of_nat_numeral of_nat_power)
    with my(1) have "1 / x \<le> 2 ^ clog2 m" by linarith
    with assms have l: "1 / 2 ^ clog2 m \<le> x"
      by (simp add: field_simps)
    from clog2_bounds(2) [OF m0 m1] have "2 ^ (clog2 m - 1) \<le> m - 1" by linarith
    then have "real (2 ^ (clog2 m - 1)) \<le> real (m - 1)" by (simp only: of_nat_le_iff)
    with m1 have "(2::real) ^ (clog2 m - 1) \<le> real m - 1" by (simp add: of_nat_diff)
    with my(2) have "(2::real) ^ (clog2 m - 1) < 1 / x" by linarith
    with assms have u: "x < 1 / 2 ^ (clog2 m - 1)"
      by (simp add: field_simps)
    have k: "0 < clog2 m" using m1 by (simp add: clog2_def)
    have e: "exponent x = - int (clog2 m)" using False by (simp add: exponent_def m_def)
    have p1: "pow2 (- int (clog2 m)) = 1 / 2 ^ clog2 m" using k by (simp add: pow2_def)
    have p2: "pow2 (- int (clog2 m) + 1) = 1 / 2 ^ (clog2 m - 1)"
    proof (cases "clog2 m = 1")
      case True
      then show ?thesis by (simp add: pow2_def)
    next
      case False
      with k have "1 < clog2 m" by simp
      then have "nat (int (clog2 m) - 1) = clog2 m - 1" by simp
      with \<open>1 < clog2 m\<close> show ?thesis by (simp add: pow2_def)
    qed
    from l u show ?thesis unfolding e p1 p2 by (rule conjI)
  qed
  then show "pow2 (exponent x) \<le> x" and "x < pow2 (exponent x + 1)" by simp_all
qed


lemma pow2_pos: "0 < pow2 k"
  by (simp add: pow2_def)

lemma roundTiesToEven_nonneg: "0 \<le> r \<Longrightarrow> 0 \<le> roundTiesToEven r"
  by (simp add: roundTiesToEven_def Let_def)

lemma binary64_nonneg: 
  assumes "0 \<le> x" shows "0 \<le> binary64 x"
proof (cases "x = 0")
  case True
  then show ?thesis by (simp add: binary64_def)
next
  case False
  with assms have "0 < x" by simp
  then have "0 \<le> roundTiesToEven (\<bar>x\<bar> / pow2 (exponent \<bar>x\<bar> - 52))"
    using pow2_pos [of "exponent \<bar>x\<bar> - 52"] by (intro roundTiesToEven_nonneg) simp
  then have "0 \<le> real_of_int (roundTiesToEven (\<bar>x\<bar> / pow2 (exponent \<bar>x\<bar> - 52)))
              * pow2 (exponent \<bar>x\<bar> - 52)"
    using pow2_pos [of "exponent \<bar>x\<bar> - 52"] by simp
  with \<open>0 < x\<close> show ?thesis by (simp add: binary64_def Let_def)
qed

lemma binary64_minus: "binary64 (- x) = - binary64 x"
  by (simp add: binary64_def Let_def)

lemma binary64_nonpos: 
  assumes "x \<le> 0" shows "binary64 x \<le> 0"
proof -
  from assms have "0 \<le> binary64 (- x)" by (intro binary64_nonneg) simp
  then show ?thesis by (simp add: binary64_minus)
qed

lemma std_round_nonpos: 
  assumes "y \<le> 0" shows "std_round y \<le> 0"
proof -
  have "0 \<le> \<lfloor>\<bar>y\<bar> + 1 / 2\<rfloor>" by simp
  then have "0 \<le> (of_int \<lfloor>\<bar>y\<bar> + 1 / 2\<rfloor> :: real)" by simp
  moreover have "sgn y \<le> 0" using assms by (simp add: sgn_if)
  ultimately have "sgn y * (of_int \<lfloor>\<bar>y\<bar> + 1 / 2\<rfloor> :: real) \<le> 0"
    by (rule mult_nonpos_nonneg [rotated])
  then show ?thesis by (simp add: std_round_def)
qed

lemma ROUND_nonpos: 
  assumes "x \<le> 0" shows "ROUND x d \<le> 0"
proof -
  define modifier where "modifier = binary64 (10 ^ d)"
  have m: "0 \<le> modifier" unfolding modifier_def by (rule binary64_nonneg) simp
  with assms have "x * modifier \<le> 0" by (simp add: mult_nonpos_nonneg)
  then have "binary64 (x * modifier) \<le> 0" by (rule binary64_nonpos)
  then have "std_round (binary64 (x * modifier)) \<le> 0" by (rule std_round_nonpos)
  with m have "std_round (binary64 (x * modifier)) / modifier \<le> 0"
    by (simp add: divide_nonpos_nonneg)
  then have "binary64 (std_round (binary64 (x * modifier)) / modifier) \<le> 0"
    by (rule binary64_nonpos)
  then show ?thesis by (simp add: ROUND_def modifier_def Let_def)
qed

lemma pow2_power_int: "pow2 k = power_int 2 k"
  by (simp add: pow2_def power_int_def power_one_over inverse_eq_divide)

lemma roundTiesToEven_error: "\<bar>real_of_int (roundTiesToEven r) - r\<bar> \<le> 1 / 2"
  unfolding roundTiesToEven_def Let_def by (auto simp: abs_if) linarith+

lemma binary64_error:
  assumes "x \<noteq> 0"
  shows "\<bar>binary64 x - x\<bar> \<le> pow2 (exponent \<bar>x\<bar> - 52) / 2"
    and "\<bar>binary64 x - x\<bar> \<le> \<bar>x\<bar> / 2 ^ 53"
proof -
  define ulp where "ulp = pow2 (exponent \<bar>x\<bar> - 52)"
  have u: "0 < ulp" unfolding ulp_def by (rule pow2_pos)
  define r where "r = \<bar>x\<bar> / ulp"
  have b: "binary64 x = sgn x * (real_of_int (roundTiesToEven r) * ulp)"
    using assms by (simp add: binary64_def Let_def ulp_def r_def)
  have x: "x = sgn x * (r * ulp)"
    using u by (simp add: r_def sgn_mult_abs)
  have "binary64 x - x = sgn x * ((real_of_int (roundTiesToEven r) - r) * ulp)"
    by (subst b, subst (2) x) (simp add: algebra_simps)
  then have "\<bar>binary64 x - x\<bar> = \<bar>real_of_int (roundTiesToEven r) - r\<bar> * ulp"
    using assms u by (simp add: abs_mult abs_sgn_eq)
  also have "\<dots> \<le> 1 / 2 * ulp"
    using roundTiesToEven_error [of r] u by (intro mult_right_mono) simp_all
  finally show 1: "\<bar>binary64 x - x\<bar> \<le> pow2 (exponent \<bar>x\<bar> - 52) / 2"
    by (simp add: ulp_def)
  have "pow2 (exponent \<bar>x\<bar> - 52) = pow2 (exponent \<bar>x\<bar>) / 2 ^ 52"
    by (simp add: pow2_power_int power_int_diff)
  moreover have "pow2 (exponent \<bar>x\<bar>) \<le> \<bar>x\<bar>"
    using assms by (intro exponent_bounds) simp
  ultimately have "pow2 (exponent \<bar>x\<bar> - 52) / 2 \<le> \<bar>x\<bar> / 2 ^ 53"
    by (simp add: field_simps)
  with 1 show "\<bar>binary64 x - x\<bar> \<le> \<bar>x\<bar> / 2 ^ 53" by linarith
qed

text \<open>An integer below \<open>2^53\<close> in magnitude is a double: its cast is exact.\<close>

lemma roundTiesToEven_of_int: "roundTiesToEven (real_of_int z) = z"
  by (simp add: roundTiesToEven_def)

lemma binary64_of_int:
  assumes "\<bar>i\<bar> < 2 ^ 53"
  shows "binary64 (real_of_int i) = real_of_int i"
proof (cases "i = 0")
  case True
  then show ?thesis by (simp add: binary64_def)
next
  case False
  define x where "x = \<bar>real_of_int i\<bar>"
  from False have x1: "1 \<le> x" by (simp add: x_def)
  then have x0: "0 < x" by simp
  define e where "e = exponent x"
  have e0: "0 \<le> e" using x1 by (simp add: e_def exponent_def)
  have "pow2 e \<le> x" unfolding e_def using x0 by (rule exponent_bounds)
  moreover have "x < 2 ^ 53"
  proof -
    from assms have "real_of_int \<bar>i\<bar> < real_of_int (2 ^ 53)" by (simp only: of_int_less_iff)
    then show ?thesis by (simp add: x_def)
  qed
  ultimately have "(2::real) ^ nat e < 2 ^ 53" using e0 by (simp add: pow2_def)
  then have "nat e < 53" 
    by (simp only: power_strict_increasing_iff one_less_numeral_iff semiring_norm)
  then have e52: "e \<le> 52" by simp
  define k where "k = nat (52 - e)"
  have ulp: "pow2 (e - 52) = 1 / 2 ^ k"
  proof (cases "e = 52")
    case True
    then show ?thesis by (simp add: pow2_def k_def)
  next
    case False
    with e52 have "e < 52" by simp
    then show ?thesis by (simp add: pow2_def k_def)
  qed
  have "x / pow2 (e - 52) = real_of_int (\<bar>i\<bar> * 2 ^ k)"
    by (simp add: ulp x_def)
  then have "roundTiesToEven (x / pow2 (e - 52)) = \<bar>i\<bar> * 2 ^ k"
    by (simp only: roundTiesToEven_of_int)
  then have "binary64 (real_of_int i)
             = sgn (real_of_int i) * real_of_int (\<bar>i\<bar> * 2 ^ k) * (1 / 2 ^ k)"
    using False by (simp add: binary64_def Let_def x_def [symmetric] e_def [symmetric] ulp)
  also have "\<dots> = sgn (real_of_int i) * \<bar>real_of_int i\<bar>" by simp
  also have "\<dots> = real_of_int i" by (simp add: sgn_mult_abs)
  finally show ?thesis .
qed

subsection \<open>The derived column \<open>gc_content\<close>\<close>

lemma sql_upper_char_G: "sql_upper_char c = CHR ''G'' \<longleftrightarrow> c = CHR ''G'' \<or> c = CHR ''g''"
  by (simp add: sql_upper_char_def)

lemma sql_upper_char_C: "sql_upper_char c = CHR ''C'' \<longleftrightarrow> c = CHR ''C'' \<or> c = CHR ''c''"
  by (simp add: sql_upper_char_def)

lemma length_filter_not: "length (filter (\<lambda>x. \<not> P x) xs) = length xs - length (filter P xs)"
proof -
  have "length (filter P xs) + length (filter (\<lambda>x. \<not> P x) xs) = length xs"
    by (rule sum_length_filter_compl)
  then show ?thesis by linarith
qed

lemma length_REPLACE_del_UPPER:
  "length (REPLACE_del (UPPER s) c) = length s - length (filter (\<lambda>x. sql_upper_char x = c) s)"
  by (simp add: REPLACE_del_def UPPER_def filter_map o_def length_filter_not)

text \<open>
  What the expression computes: with \<open>G\<close> and \<open>C\<close> the case-insensitive counts and \<open>L\<close>
  the length, the parenthesis is \<open>L - (L - G) - (L - C) = G + C - L\<close>, so the column is
  \<open>-1 * ROUND(100 * (G + C - L) / L, 2)\<close>: the percentage of the characters that are
  neither G nor C, and never negative.
\<close>

lemma gc_content_computes:
  assumes "s \<noteq> []"
  shows "gc_content s =
     Some (- 1 * ROUND (divide_double
        (binary64 (100 * (of_nat (length (filter (\<lambda>c. c = CHR ''G'' \<or> c = CHR ''g'') s))
                          + of_nat (length (filter (\<lambda>c. c = CHR ''C'' \<or> c = CHR ''c'') s))
                          - of_nat (length s))))
        (CAST_AS_DOUBLE (int (length s)))) 2)"
proof -
  let ?G = "length (filter (\<lambda>c. c = CHR ''G'' \<or> c = CHR ''g'') s)"
  let ?C = "length (filter (\<lambda>c. c = CHR ''C'' \<or> c = CHR ''c'') s)"
  have g: "length (REPLACE_del (UPPER s) CHR ''G'') = length s - ?G"
    by (simp only: length_REPLACE_del_UPPER sql_upper_char_G)
  have c: "length (REPLACE_del (UPPER s) CHR ''C'') = length s - ?C"
    by (simp only: length_REPLACE_del_UPPER sql_upper_char_C)
  have gl: "?G \<le> length s" and cl: "?C \<le> length s" by simp_all
  have eq: "(of_nat (length s) :: real) - of_nat (length s - ?G) - of_nat (length s - ?C)
        = of_nat ?G + of_nat ?C - of_nat (length s)"
    unfolding of_nat_diff [OF gl] of_nat_diff [OF cl] by simp
  show ?thesis unfolding gc_content_def g c eq using assms by simp
qed

lemma length_filter_disjoint:
  assumes "\<And>x. P x \<Longrightarrow> \<not> Q x"
  shows "length (filter P xs) + length (filter Q xs) \<le> length xs"
  using assms by (induction xs) auto

lemma gc_content_nonneg:
  assumes "gc_content s = Some v"
  shows "0 \<le> v"
proof -
  from assms have ne: "s \<noteq> []" by (auto simp: gc_content_def split: if_splits)
  define G where "G = length (filter (\<lambda>c. c = CHR ''G'' \<or> c = CHR ''g'') s)"
  define C where "C = length (filter (\<lambda>c. c = CHR ''C'' \<or> c = CHR ''c'') s)"
  define x where "x = divide_double (binary64 (100 * (real G + real C - real (length s))))
                        (CAST_AS_DOUBLE (int (length s)))"
  have "G + C \<le> length s"
    unfolding G_def C_def by (rule length_filter_disjoint) auto
  then have "100 * (real G + real C - real (length s)) \<le> 0"
    by simp
  then have n: "binary64 (100 * (real G + real C - real (length s))) \<le> 0"
    by (rule binary64_nonpos)
  have d: "0 \<le> CAST_AS_DOUBLE (int (length s))"
    unfolding CAST_AS_DOUBLE_def by (rule binary64_nonneg) simp
  from n d have "binary64 (100 * (real G + real C - real (length s)))
                 / CAST_AS_DOUBLE (int (length s)) \<le> 0"
    by (simp add: divide_nonpos_nonneg)
  then have "x \<le> 0"
    unfolding x_def divide_double_def by (rule binary64_nonpos)
  then have r: "ROUND x 2 \<le> 0"
    by (rule ROUND_nonpos)
  have "gc_content s = Some (- 1 * ROUND x 2)"
    unfolding x_def G_def C_def by (rule gc_content_computes [OF ne])
  with assms have "v = - 1 * ROUND x 2" by simp
  with r show ?thesis by simp
qed

text \<open>
  C2. The spec gives \<open>gc_content = -1 * round(100 * (G + C) / L, 2)\<close>, never positive, with
  the value \<open>-0.0\<close> for eleven A's and \<open>-100.0\<close> for \<open>GGGGGCCCCCC\<close>. The SQL expression
  subtracts both REPLACE lengths from the length, so on eleven A's it yields \<open>100\<close> and on
  \<open>GGGGGCCCCCC\<close> it yields \<open>0\<close>.
\<close>

theorem C2_gc_content_failing_input:
  "gc_content ''AAAAAAAAAAA'' = Some 100 \<and> gc_content ''GGGGGCCCCCC'' = Some 0
   \<and> gc_content ''AAAAAAAAAAA'' \<noteq> Some (- 1 * ROUND (100 * (0 + 0) / 11) 2)
   \<and> gc_content ''GGGGGCCCCCC'' \<noteq> Some (- 1 * ROUND (100 * (5 + 6) / 11) 2)"
proof -
  have e: "exponent 11 = 3" "exponent 1100 = 10" "exponent 100 = 6" "exponent 10000 = 13"
    by (simp_all add: exponent_def ilog2.simps)
  have b: "binary64 11 = 11" "binary64 (- 1100) = - 1100" "binary64 100 = 100"
    "binary64 (- 100) = - 100" "binary64 10000 = 10000" "binary64 (- 10000) = - 10000"
    "binary64 0 = 0"
    by (simp_all add: binary64_def e pow2_def roundTiesToEven_def)
  have r: "ROUND (- 100) 2 = - 100" "ROUND 0 2 = 0" "ROUND 100 2 = 100"
    by (simp_all add: ROUND_def b std_round_def)
  show ?thesis
    by (simp add: gc_content_def UPPER_def REPLACE_del_def sql_upper_char_def
        divide_double_def CAST_AS_DOUBLE_def b r)
qed

subsection \<open>Identifier sanitizer and legacy filter string\<close>

lemma isWordChar_not_space: "isWordChar c \<Longrightarrow> \<not> isAsciiSpace c"
  by (auto simp: isWordChar_def isAsciiSpace_def)

lemma dropWhile_id: "(\<And>x. x \<in> set xs \<Longrightarrow> \<not> P x) \<Longrightarrow> dropWhile P xs = xs"
  by (cases xs) auto

lemma TrimSpace_word: 
  assumes "\<And>c. c \<in> set s \<Longrightarrow> isWordChar c" 
  shows "TrimSpace s = s"
proof -
  have 1: "dropWhile isAsciiSpace s = s"
    using assms by (intro dropWhile_id) (auto dest: isWordChar_not_space)
  have 2: "dropWhile isAsciiSpace (rev s) = rev s"
    using assms by (intro dropWhile_id) (auto dest: isWordChar_not_space)
  show ?thesis by (simp add: TrimSpace_def 1 2)
qed

lemma cleanColumnName_filter: "cleanColumnName s = filter isWordChar s"
  unfolding cleanColumnName_def by (rule TrimSpace_word) simp

lemma cleanColumnName_idem: "cleanColumnName (cleanColumnName s) = cleanColumnName s"
  by (simp add: cleanColumnName_filter)

lemma isNumericColumn_iff:
  "isNumericColumn col \<longleftrightarrow>
     cleanColumnName col \<in> {''donor_age_at_diagnosis'', ''gc_content'', ''AF'', ''AF_eas'',
        ''AF_afr'', ''AF_fin'', ''AF_ami'', ''AF_amr'', ''AF_nfe'', ''AF_sas'', ''AF_asj''}"
  by (simp add: isNumericColumn_def columnTypes_def numericTypes_def)

lemma legacyStep_append: "legacyStep wc c = wc @ legacyStep [] c"
  by (simp add: legacyStep_def Let_def)

lemma foldl_legacyStep:
  "foldl legacyStep wc conds = wc @ concat (map (legacyStep []) conds)"
proof (induction conds arbitrary: wc)
  case Nil
  show ?case by simp
next
  case (Cons c cs)
  have "foldl legacyStep wc (c # cs) = foldl legacyStep (legacyStep wc c) cs" by simp
  also have "\<dots> = legacyStep wc c @ concat (map (legacyStep []) cs)" by (rule Cons.IH)
  also have "\<dots> = (wc @ legacyStep [] c) @ concat (map (legacyStep []) cs)"
    by (subst legacyStep_append) (rule refl)
  finally show ?case by simp
qed

lemma SplitFrom_nonempty: "SplitFrom sep cur s \<noteq> []"
  by (induction sep cur s rule: SplitFrom.induct) auto

lemma Split_nonempty: "Split s sep \<noteq> []"
  by (simp add: Split_def SplitFrom_nonempty)


text \<open>
  C3. When the range channel is not active, the predicate list of the legacy channel is
  obtained condition by condition from the pieces of \<open>filters\<close> between the tokens
  \<open>" AND "\<close>: a condition with fewer than three white-space-separated fields yields
  nothing; a condition whose first field, sanitized, is one of the eleven numeric
  columns yields \<open>CAST("column" AS FLOAT) operator value\<close> with the parentheses removed
  from the value; any other condition is passed through unchanged.
\<close>

theorem C3_legacy_filter_compiler:
  assumes "\<not> (filterType req = ''between'' \<and> column req \<noteq> [] \<and> filterValue req \<noteq> [])"
  shows \<open>rangeOrLegacy req =
     concat (map (\<lambda>cond.
         if length (Fields cond) < 3 then []
         else if cleanColumnName (Fields cond ! 0) \<in> {''donor_age_at_diagnosis'', ''gc_content'',
                   ''AF'', ''AF_eas'', ''AF_afr'', ''AF_fin'', ''AF_ami'', ''AF_amr'', ''AF_nfe'',
                   ''AF_sas'', ''AF_asj''}
         then [''CAST("'' @ cleanColumnName (Fields cond ! 0) @ ''" AS FLOAT) '' @ Fields cond ! 1
               @ '' '' @ filter (\<lambda>c. c \<noteq> CHR ''('' \<and> c \<noteq> CHR '')'') (Fields cond ! 2)]
         else [cond])
       (Split (filters req) '' AND ''))\<close>
proof -
  have one: \<open>legacyStep [] cond =
     (if length (Fields cond) < 3 then []
         else if cleanColumnName (Fields cond ! 0) \<in> {''donor_age_at_diagnosis'', ''gc_content'',
                   ''AF'', ''AF_eas'', ''AF_afr'', ''AF_fin'', ''AF_ami'', ''AF_amr'', ''AF_nfe'',
                   ''AF_sas'', ''AF_asj''}
         then [''CAST("'' @ cleanColumnName (Fields cond ! 0) @ ''" AS FLOAT) '' @ Fields cond ! 1
               @ '' '' @ filter (\<lambda>c. c \<noteq> CHR ''('' \<and> c \<noteq> CHR '')'') (Fields cond ! 2)]
         else [cond])\<close> for cond
    unfolding legacyStep_def Let_def isNumericColumn_iff cleanColumnName_idem castClause_def
      removeParentheses_def
    by (simp add: not_less)
  have empty: "concat (map (legacyStep []) (Split [] '' AND '')) = []"
    by (simp add: Split_def legacyStep_def Fields_def)
  show ?thesis
  proof (cases "filters req = []")
    case True
    with assms have "rangeOrLegacy req = []" by (auto simp: rangeOrLegacy_def)
    with empty True show ?thesis by (simp only: one [symmetric])
  next
    case False
    with assms have "rangeOrLegacy req = foldl legacyStep [] (Split (filters req) '' AND '')"
      by (auto simp: rangeOrLegacy_def)
    then show ?thesis by (simp only: foldl_legacyStep one [symmetric] append_Nil)
  qed
qed

theorem C3_legacy_filter_compiler_witness:
  \<open>\<not> (filterType \<lparr>length_param = ''11'', pageStr = [], limitStr = [],
     filters = ''(gc_content > 10) AND Hugo_Symbol = TP53 AND AF <'', specialFilters = [],
     column = [], filterType = [], filterValue = []\<rparr> = ''between'') 
   \<and> rangeOrLegacy \<lparr>length_param = ''11'', pageStr = [], limitStr = [],
     filters = ''(gc_content > 10) AND Hugo_Symbol = TP53 AND AF <'', specialFilters = [],
     column = [], filterType = [], filterValue = []\<rparr>
   = [''CAST("gc_content" AS FLOAT) > 10'', ''Hugo_Symbol = TP53'']\<close>
proof -
  let ?req = "\<lparr>length_param = ''11'', pageStr = [], limitStr = [],
     filters = ''(gc_content > 10) AND Hugo_Symbol = TP53 AND AF <'', specialFilters = [],
     column = [], filterType = [], filterValue = []\<rparr>"
  have h: "\<not> (filterType ?req = ''between'' \<and> column ?req \<noteq> [] \<and> filterValue ?req \<noteq> [])"
    by simp
  have s: "Split ''(gc_content > 10) AND Hugo_Symbol = TP53 AND AF <'' '' AND '' = [''(gc_content > 10)'', ''Hugo_Symbol = TP53'', ''AF <'']"
    by code_simp
  have f1: "Fields ''(gc_content > 10)'' = [''(gc_content'', ''>'', ''10)'']" by code_simp
  have f2: "Fields ''Hugo_Symbol = TP53'' = [''Hugo_Symbol'', ''='', ''TP53'']" by code_simp
  have f3: "Fields ''AF <'' = [''AF'', ''<'']" by code_simp
  have c1: "cleanColumnName ''(gc_content'' = ''gc_content''" by code_simp
  have c2: "cleanColumnName ''Hugo_Symbol'' = ''Hugo_Symbol''" by code_simp
  show ?thesis
    using C3_legacy_filter_compiler [OF h] by (simp add: s f1 f2 f3 c1 c2)
qed

subsection \<open>Range filter\<close>

text \<open>
  What the range channel does, for every request with \<open>filterType = between\<close> and a
  non-empty column and value: when the value splits on \<open>,\<close> into exactly two parts the
  compiler emits \<open>CAST("column" AS FLOAT) >= min AND CAST("column" AS FLOAT) <= max\<close>
  with the two parts and the column all interpolated as received, the column between
  double quotes; otherwise it emits nothing; and in both cases the legacy \<open>filters\<close>
  parameter is ignored.
\<close>

lemma between_filter:
  assumes "filterType req = ''between''" and "column req \<noteq> []" and "filterValue req \<noteq> []"
  shows \<open>rangeOrLegacy req =
           (if length (Split (filterValue req) '','') = 2
            then [''CAST("'' @ column req @ ''" AS FLOAT) >= '' @ Split (filterValue req) '','' ! 0
                  @ '' AND CAST("'' @ column req @ ''" AS FLOAT) <= ''
                  @ Split (filterValue req) '','' ! 1]
            else [])
         \<and> rangeOrLegacy (req\<lparr>filters := legacy\<rparr>) = rangeOrLegacy req\<close>
  using assms by (simp add: rangeOrLegacy_def betweenClause_def Let_def)

lemma between_filter_example:
  \<open>rangeOrLegacy \<lparr>length_param = ''11'', pageStr = [], limitStr = [], filters = ''AF > 0.9'',
        specialFilters = [], column = ''AF'', filterType = ''between'',
        filterValue = ''0.1,0.5''\<rparr>
     = [''CAST("AF" AS FLOAT) >= 0.1 AND CAST("AF" AS FLOAT) <= 0.5'']
   \<and> rangeOrLegacy \<lparr>length_param = ''11'', pageStr = [], limitStr = [], filters = ''AF > 0.9'',
        specialFilters = [], column = ''AF'', filterType = ''between'',
        filterValue = ''0.1,0.5,0.7''\<rparr> = []\<close>
proof -
  let ?req = "\<lparr>length_param = ''11'', pageStr = [], limitStr = [], filters = ''AF > 0.9'',
        specialFilters = [], column = ''AF'', filterType = ''between'',
        filterValue = ''0.1,0.5''\<rparr>"
  let ?req3 = "\<lparr>length_param = ''11'', pageStr = [], limitStr = [], filters = ''AF > 0.9'',
        specialFilters = [], column = ''AF'', filterType = ''between'',
        filterValue = ''0.1,0.5,0.7''\<rparr>"
  have s: "Split ''0.1,0.5'' '','' = [''0.1'', ''0.5'']" by code_simp
  have s3: "Split ''0.1,0.5,0.7'' '','' = [''0.1'', ''0.5'', ''0.7'']" by code_simp
  have a: "filterType ?req = ''between''" "column ?req \<noteq> []" "filterValue ?req \<noteq> []"
    by simp_all
  have a3: "filterType ?req3 = ''between''" "column ?req3 \<noteq> []" "filterValue ?req3 \<noteq> []"
    by simp_all
  show ?thesis
    using between_filter [OF a, of "[]"] between_filter [OF a3, of "[]"]
    by (simp add: s s3)
qed

text \<open>
  C4. The claim has the column of the range channel sanitized before it is interpolated.
  The legacy channel does that (\<open>col := cleanColumnName(parts[0])\<close>): the condition
  \<open>A-F > 0.1\<close> becomes a predicate on \<open>"AF"\<close>. The range channel, in the same
  \<open>if\<close> statement, interpolates the column as it is received: the column \<open>A-F\<close>
  reaches the predicate unchanged, where the sanitizer would have given \<open>AF\<close>.
\<close>

theorem C4_between_column_not_sanitized:
  \<open>rangeOrLegacy \<lparr>length_param = ''11'', pageStr = [], limitStr = [], filters = [],
        specialFilters = [], column = ''A-F'', filterType = ''between'',
        filterValue = ''0.1,0.5''\<rparr>
     = [''CAST("A-F" AS FLOAT) >= 0.1 AND CAST("A-F" AS FLOAT) <= 0.5'']
   \<and> rangeOrLegacy \<lparr>length_param = ''11'', pageStr = [], limitStr = [], filters = [],
        specialFilters = [], column = ''A-F'', filterType = ''between'',
        filterValue = ''0.1,0.5''\<rparr>
     \<noteq> [betweenClause (cleanColumnName ''A-F'') ''0.1'' ''0.5'']
   \<and> rangeOrLegacy \<lparr>length_param = ''11'', pageStr = [], limitStr = [],
        filters = ''A-F > 0.1'', specialFilters = [], column = [], filterType = [],
        filterValue = []\<rparr>
     = [''CAST("AF" AS FLOAT) > 0.1'']\<close>
proof -
  have s: "Split ''0.1,0.5'' '','' = [''0.1'', ''0.5'']" by code_simp
  have c: "cleanColumnName ''A-F'' = ''AF''" by code_simp
  have l: "Split ''A-F > 0.1'' '' AND '' = [''A-F > 0.1'']" by code_simp
  have f: "Fields ''A-F > 0.1'' = [''A-F'', ''>'', ''0.1'']" by code_simp
  have r: "removeParentheses ''0.1'' = ''0.1''" by code_simp
  have n: "isNumericColumn ''AF''" by (simp add: isNumericColumn_iff c cleanColumnName_idem [of "''A-F''", unfolded c])
  show ?thesis
    by (simp add: rangeOrLegacy_def s c betweenClause_def l f r n legacyStep_def castClause_def)
qed

subsection \<open>Special filters\<close>

lemma specialStep_append: "specialStep J L wc part = wc @ specialStep J L [] part"
  by (simp add: specialStep_def Let_def split: prod.splits option.splits)

lemma foldl_specialStep:
  "foldl (specialStep J L) wc parts = wc @ concat (map (specialStep J L []) parts)"
proof (induction parts arbitrary: wc)
  case Nil
  show ?case by simp
next
  case (Cons p ps)
  have "foldl (specialStep J L) wc (p # ps) = foldl (specialStep J L) (specialStep J L wc p) ps"
    by simp
  also have "\<dots> = specialStep J L wc p @ concat (map (specialStep J L []) ps)"
    by (rule Cons.IH)
  also have "\<dots> = (wc @ specialStep J L [] p) @ concat (map (specialStep J L []) ps)"
    by (subst specialStep_append) (rule refl)
  finally show ?case by simp
qed

text \<open>
  One directive yields a predicate exactly when it splits on \<open>;\<close> into the name
  \<open>at_least_X_distinct_patients\<close> and one argument that \<open>Atoi\<close> reads as a positive
  integer; anything else adds nothing.
\<close>

lemma specialStep_one:
  "specialStep J L [] part =
     (case Split part '';'' of
        [name, arg] \<Rightarrow>
          if name = ''at_least_X_distinct_patients'' \<and> snd (Atoi arg) = None \<and> fst (Atoi arg) > 0
          then [subQuery (J L) (fst (Atoi arg))] else []
      | _ \<Rightarrow> [])"
proof (cases "Split part '';''")
  case Nil
  then show ?thesis using Split_nonempty [of part "'';''"] by simp
next
  case (Cons name rest)
  show ?thesis
  proof (cases rest)
    case Nil
    with Cons show ?thesis by (simp add: specialStep_def)
  next
    case (Cons arg rest')
    with \<open>Split part '';'' = name # rest\<close> show ?thesis
      by (cases rest'; cases "Atoi arg"; cases "snd (Atoi arg)")
         (auto simp: specialStep_def Let_def)
  qed
qed

lemma buildWhereClauses_eq:
  "buildWhereClauses req =
     rangeOrLegacy req @
     (if specialFilters req = [] then []
      else concat (map (specialStep subJoins (length_param req) []) (Split (specialFilters req) ''|'')))"
  by (simp add: buildWhereClauses_def Let_def foldl_specialStep)

text \<open>
  In \<open>getNullomersHandler\<close> the subquery joins the same tables, with the same kinds of
  join and the same conditions, as the base CTE; it drops the aliases \<open>n\<close> and \<open>c\<close>.
\<close>

lemma subJoins_topology:
  "map (\<lambda>j. (jkind j, jtable j, jcond j)) (subJoins L)
   = map (\<lambda>j. (jkind j, jtable j, jcond j)) (baseJoins L)"
  by (simp add: subJoins_def baseJoins_def)

text \<open>
  C5. In the stats handler of \<open>server.go\<close> the directive
  \<open>at_least_X_distinct_patients;3\<close> compiles to a subquery that bridges the donor keys
  through \<open>exomes_donor_id_mapping\<close>, while the base CTE of the same handler bridges
  them through \<open>donor_id_mapping\<close>: the join topologies differ.
\<close>

theorem C5_stats_subquery_bridge_differs:
  \<open>statsSpecialClauses_server ''11'' ''at_least_X_distinct_patients;3'' []
     = [subQuery (statsSubJoins_server ''11'') 3]
   \<and> map jtable (statsSubJoins_server ''11'')
     = [''neomers_11'', ''cancer_type_details'', ''exomes_donor_id_mapping'', ''donor_data'']
   \<and> map jtable (statsBaseJoins_server ''11'')
     = [''neomers_11'', ''cancer_type_details'', ''donor_id_mapping'', ''donor_data'']
   \<and> map (\<lambda>j. (jkind j, jtable j, jcond j)) (statsSubJoins_server ''11'')
     \<noteq> map (\<lambda>j. (jkind j, jtable j, jcond j)) (statsBaseJoins_server ''11'')\<close>
proof -
  have s1: "Split ''at_least_X_distinct_patients;3'' ''|'' = [''at_least_X_distinct_patients;3'']"
    by code_simp
  have s2: "Split ''at_least_X_distinct_patients;3'' '';'' = [''at_least_X_distinct_patients'', ''3'']"
    by code_simp
  have a: "Atoi ''3'' = (3, None)" by code_simp
  show ?thesis
    by (simp add: statsSpecialClauses_server_def s1 specialStep_def s2 a
        statsSubJoins_server_def statsBaseJoins_server_def)
qed

subsection \<open>Pagination\<close>

lemma int64_id: "- (2 ^ 63) \<le> i \<Longrightarrow> i < 2 ^ 63 \<Longrightarrow> int64 i = i"
  by (simp add: int64_def)

lemma parseDigits_bounds:
  "0 \<le> n \<Longrightarrow> n \<le> 2 ^ 64 - 1 \<Longrightarrow> 0 \<le> fst (parseDigits n s) \<and> fst (parseDigits n s) \<le> 2 ^ 64 - 1"
proof (induction n s rule: parseDigits.induct)
  case (1 n)
  then show ?case by simp
next
  case (2 n c cs)
  have d: "isDigit c \<Longrightarrow> 0 \<le> digitVal c"
  proof -
    assume "isDigit c"
    then have "(48::nat) \<le> of_char c" by (simp add: isDigit_def less_eq_char_def)
    then have "(48::int) \<le> int (of_char c)" by linarith
    then show ?thesis by (simp add: digitVal_def of_nat_of_char)
  qed
  show ?case
  proof (cases "isDigit c")
    case False
    then show ?thesis by simp
  next
    case True
    show ?thesis
    proof (cases "n * 10 + digitVal c > 2 ^ 64 - 1")
      case True
      with \<open>isDigit c\<close> show ?thesis by simp
    next
      case False
      have "0 \<le> n * 10 + digitVal c" using d [OF True] "2.prems" by simp
      with False True "2.IH" show ?thesis by simp
    qed
  qed
qed

lemma Atoi_range:
  "snd (Atoi s) = None \<Longrightarrow> - (2 ^ 63) \<le> fst (Atoi s) \<and> fst (Atoi s) < 2 ^ 63"
  unfolding Atoi_def ParseInt_def ParseUint_def Let_def
  using parseDigits_bounds [of 0 "if hd s = CHR ''+'' \<or> hd s = CHR ''-'' then tl s else s"]
  by (auto split: if_splits prod.splits)

lemma parsePage_eq:
  "parsePage s = (if snd (Atoi s) = None \<and> fst (Atoi s) \<ge> 0 then fst (Atoi s) else 0)"
  by (cases "Atoi s"; cases "snd (Atoi s)") (auto simp: parsePage_def)

lemma parseLimit_eq:
  "parseLimit s =
     (if snd (Atoi s) = None \<and> 0 < fst (Atoi s) \<and> fst (Atoi s) \<le> 10000 then fst (Atoi s) else 10000)"
  by (cases "Atoi s"; cases "snd (Atoi s)") (auto simp: parseLimit_def)

lemma parsePage_range: "0 \<le> parsePage s \<and> parsePage s < 2 ^ 63"
  using Atoi_range [of s] by (simp add: parsePage_eq)

lemma parseLimit_range: "0 < parseLimit s \<and> parseLimit s \<le> 10000"
  by (simp add: parseLimit_eq)

lemma parsePage_default: "parsePage [] = 0"
  by (simp add: parsePage_eq Atoi_def ParseInt_def)

lemma parseLimit_default: "parseLimit [] = 10000"
  by (simp add: parseLimit_eq Atoi_def ParseInt_def)

text \<open>
  The two queries of a request: the count query first, then the page query, built from
  the same \<open>finalWhere\<close>; the offset is the product of page and limit in 64-bit
  arithmetic.
\<close>

lemma getNullomersHandler_queries:
  assumes "length_param req \<noteq> []"
  shows "\<exists>qs. snd (getNullomersHandler db req)
           = countQuery (length_param req) (finalWhereOf (buildWhereClauses req)) # qs
         \<and> (qs = [] \<or> qs = [pageQuery (length_param req) (finalWhereOf (buildWhereClauses req))
                 (parseLimit (limitStr req))
                 (int64 (parsePage (pageStr req) * parseLimit (limitStr req)))])"
  using assms
  by (auto simp: getNullomersHandler_def materializePage_def Let_def split: sum.splits)

lemma offset_exact:
  assumes "parsePage p * parseLimit l < 2 ^ 63"
  shows "int64 (parsePage p * parseLimit l) = parsePage p * parseLimit l"
proof -
  have "0 \<le> parsePage p * parseLimit l"
    using parsePage_range [of p] parseLimit_range [of l] by simp
  then show ?thesis using assms by (simp add: int64_id)
qed

text \<open>
  C6. Two requests on which the pagination planner departs from the claim. The exome
  handler keeps a negative page, which \<open>getNullomersHandler\<close> replaces by the default:
  \<open>page=-1\<close> gives \<open>OFFSET -10000\<close>, not the default page \<open>0\<close>. In
  \<open>getNullomersHandler\<close> the product overflows for a large page:
  \<open>page=4611686018427387904\<close> and \<open>limit=4\<close> give \<open>OFFSET 0\<close>.
\<close>

theorem C6_pagination_failing_inputs:
  "exomePage (Some ''-1'') = - 1
   \<and> parsePage ''-1'' = 0
   \<and> exomeLimitOffset (Some ''-1'') None = '' LIMIT 10000 OFFSET -10000''
   \<and> parsePage ''4611686018427387904'' = 4611686018427387904
   \<and> parseLimit ''4'' = 4
   \<and> int64 (parsePage ''4611686018427387904'' * parseLimit ''4'') = 0
   \<and> snd (getNullomersHandler sampleExecutor request_page_overflow)
     = [countQuery ''11'' [], pageQuery ''11'' [] 4 0]
   \<and> pageQuery ''11'' [] 4 0 = baseQuery ''11'' @ ''  LIMIT 4 OFFSET 0''"
proof -
  have a: "Atoi ''-1'' = (- 1, None)" by code_simp
  have b: "Atoi ''10000'' = (10000, None)" by code_simp
  have c: "Atoi ''4611686018427387904'' = (4611686018427387904, None)" by code_simp
  have d: "Atoi ''4'' = (4, None)" by code_simp
  have e: "Itoa 10000 = ''10000''" by (simp add: Itoa_def digitsOf.simps)
  have f: "Itoa (- 10000) = ''-10000''" by (simp add: Itoa_def digitsOf.simps)
  have g: "Itoa 4 = ''4''" "Itoa 0 = ''0''" by (simp_all add: Itoa_def digitsOf.simps)
  have p: "parsePage ''4611686018427387904'' = 4611686018427387904" "parseLimit ''4'' = 4"
    "parsePage ''-1'' = 0"
    by (simp_all add: parsePage_def parseLimit_def a c d)
  have o: "int64 (4611686018427387904 * 4) = 0" by (simp add: int64_def)
  have w: "finalWhereOf (buildWhereClauses request_page_overflow) = []"
    by (simp add: buildWhereClauses_def rangeOrLegacy_def request_page_overflow_def
        finalWhereOf_def)
  have h: "snd (getNullomersHandler sampleExecutor request_page_overflow)
           = [countQuery ''11'' [], pageQuery ''11'' [] 4 0]"
    unfolding getNullomersHandler_def Let_def w
    by (simp add: request_page_overflow_def sampleExecutor_def materializePage_def p int64_def)
  show ?thesis
    by (simp add: exomePage_def exomeLimit_def exomeLimitOffset_def DefaultQuery_def a b e f g
        p o h pageQuery_def int64_def)
qed

subsection \<open>Validation of the dataset-length selector\<close>

lemma getNullomersHandler_status_400:
  "status (fst (getNullomersHandler db req)) = StatusBadRequest \<longleftrightarrow> length_param req = []"
  by (auto simp: getNullomersHandler_def materializePage_def Let_def StatusBadRequest_def
      StatusInternalServerError_def StatusOK_def split: sum.splits)

lemma jaccardHandler_rejects:
  assumes "K = [] \<or> snd (Atoi K) \<noteq> None \<or> K = ''0''"
  shows "status (fst (jaccardHandler label db K)) = StatusBadRequest
         \<and> snd (jaccardHandler label db K) = []"
  using assms by (auto simp: jaccardHandler_def)

lemma jaccardHandler_status_400:
  "status (fst (jaccardHandler label db K)) = StatusBadRequest
   \<longleftrightarrow> K = [] \<or> snd (Atoi K) \<noteq> None \<or> K = ''0''"
  by (auto simp: jaccardHandler_def Let_def StatusBadRequest_def StatusInternalServerError_def
      StatusOK_def split: option.splits sum.splits)

text \<open>
  What the handlers check. \<open>getNullomersHandler\<close> answers HTTP 400 exactly when
  \<open>length\<close> is absent or empty, and then sends no query; for every other \<open>length\<close>,
  inside the domain 11 to 20 or not, the first statement it sends is the count query on
  the table named after \<open>length\<close>. The Jaccard handlers answer HTTP 400 and send no query
  when \<open>K\<close> is absent or empty, when \<open>Atoi\<close> rejects it, and when it is the string \<open>0\<close>.
\<close>

lemma selector_validation:
  "(status (fst (getNullomersHandler db req)) = StatusBadRequest \<longleftrightarrow> length_param req = [])
   \<and> (length_param req = [] \<longrightarrow> snd (getNullomersHandler db req) = [])
   \<and> (length_param req \<noteq> [] \<longrightarrow>
        hd (snd (getNullomersHandler db req))
          = countQuery (length_param req) (finalWhereOf (buildWhereClauses req)))
   \<and> (K = [] \<or> snd (Atoi K) \<noteq> None \<or> K = ''0'' \<longrightarrow>
        status (fst (getJaccardIndexHandler jdb K)) = StatusBadRequest
        \<and> snd (getJaccardIndexHandler jdb K) = []
        \<and> status (fst (getJaccardIndexOrgansHandler jdb K)) = StatusBadRequest
        \<and> snd (getJaccardIndexOrgansHandler jdb K) = [])"
proof -
  have a: "length_param req = [] \<longrightarrow> snd (getNullomersHandler db req) = []"
    by (simp add: getNullomersHandler_def)
  have b: "length_param req \<noteq> [] \<longrightarrow>
        hd (snd (getNullomersHandler db req))
          = countQuery (length_param req) (finalWhereOf (buildWhereClauses req))"
    using getNullomersHandler_queries [of req db] by auto
  show ?thesis
    using getNullomersHandler_status_400 [of db req] a b
      jaccardHandler_rejects [of K Cancer_Type jdb] jaccardHandler_rejects [of K Organ jdb]
    by (simp add: getJaccardIndexHandler_def getJaccardIndexOrgansHandler_def)
qed

lemma selector_validation_example:
  "status (fst (getNullomersHandler missingTableExecutor (request_length_25\<lparr>length_param := []\<rparr>)))
       = StatusBadRequest
   \<and> snd (getNullomersHandler missingTableExecutor (request_length_25\<lparr>length_param := []\<rparr>)) = []
   \<and> status (fst (getJaccardIndexHandler sample_jaccard_db ''abc'')) = StatusBadRequest
   \<and> snd (getJaccardIndexHandler sample_jaccard_db ''abc'') = []
   \<and> status (fst (getJaccardIndexOrgansHandler sample_jaccard_db ''0'')) = StatusBadRequest
   \<and> snd (getJaccardIndexOrgansHandler sample_jaccard_db ''0'') = []"
proof -
  have a: "snd (Atoi ''abc'') \<noteq> None" by code_simp
  show ?thesis
    using selector_validation [of missingTableExecutor "request_length_25\<lparr>length_param := []\<rparr>"
        "''abc''" sample_jaccard_db]
      selector_validation [of missingTableExecutor "request_length_25\<lparr>length_param := []\<rparr>"
        "''0''" sample_jaccard_db]
    by (simp add: a)
qed

text \<open>
  C7. The claim has every selector outside its domain answered with HTTP 400 before any
  statement is sent. \<open>getPatientNeomersHandler\<close> does so for \<open>length=25\<close>.
  \<open>getNullomersHandler\<close> checks only that \<open>length\<close> is not empty: with \<open>length=25\<close> the
  count query on \<open>neomers_25\<close> is sent to the database, and its failure is answered with
  HTTP 500. The Jaccard handlers, whose comment and message ask for a positive integer,
  compare \<open>K\<close> with the string \<open>0\<close> only: with \<open>K=-1\<close> the statement on
  \<open>neomers_-1\<close> is sent, and its failure is answered with HTTP 500.
\<close>

theorem C7_length_out_of_domain_reaches_database:
  "status (fst (getNullomersHandler missingTableExecutor request_length_25))
     = StatusInternalServerError
   \<and> status (fst (getNullomersHandler missingTableExecutor request_length_25))
     \<noteq> StatusBadRequest
   \<and> snd (getNullomersHandler missingTableExecutor request_length_25)
     = [countQuery ''25'' []]
   \<and> patientNeomersChecks ''DO1'' ''25''
     = Some (StatusBadRequest, ''Invalid length. Must be between 11 and 20.'')
   \<and> Atoi ''-1'' = (- 1, None)
   \<and> status (fst (getJaccardIndexHandler sample_jaccard_db ''-1'')) = StatusInternalServerError
   \<and> snd (getJaccardIndexHandler sample_jaccard_db ''-1'') = [''neomers_-1'']
   \<and> status (fst (getJaccardIndexOrgansHandler sample_jaccard_db ''-1''))
     = StatusInternalServerError
   \<and> snd (getJaccardIndexOrgansHandler sample_jaccard_db ''-1'') = [''neomers_-1'']"
proof -
  have a: "Atoi ''25'' = (25, None)" by code_simp
  have b: "Atoi ''-1'' = (- 1, None)" by code_simp
  have n: "getNullomersHandler missingTableExecutor request_length_25
           = (\<lparr>status = StatusInternalServerError,
                body = ErrorBody ''Catalog Error: Table does not exist''\<rparr>,
              [countQuery ''25'' []])"
    by (simp add: getNullomersHandler_def missingTableExecutor_def request_length_25_def
        Let_def rangeOrLegacy_def buildWhereClauses_def finalWhereOf_def)
  have j: "jaccardHandler label sample_jaccard_db ''-1''
           = (\<lparr>status = StatusInternalServerError,
                body = JaccardError ''Failed to execute query''\<rparr>, [''neomers_-1''])" for label
    by (simp add: jaccardHandler_def b sample_jaccard_db_def Let_def)
  show ?thesis
    by (simp add: n j a b patientNeomersChecks_def getJaccardIndexHandler_def
        getJaccardIndexOrgansHandler_def StatusInternalServerError_def StatusBadRequest_def)
qed

theorem C7_length_out_of_domain_reaches_database_witness:
  "length_param request_length_25 \<noteq> []
   \<and> status (fst (getNullomersHandler missingTableExecutor request_length_25)) \<noteq> StatusBadRequest
   \<and> hd (snd (getNullomersHandler missingTableExecutor request_length_25)) = countQuery ''25'' []
   \<and> ''-1'' \<noteq> [] \<and> snd (Atoi ''-1'') = None \<and> ''-1'' \<noteq> ''0''
   \<and> fst (Atoi ''-1'') < 1
   \<and> neomers_tables sample_jaccard_db ''neomers_-1'' = None
   \<and> status (fst (getJaccardIndexHandler sample_jaccard_db ''-1'')) \<noteq> StatusBadRequest
   \<and> hd (snd (getJaccardIndexHandler sample_jaccard_db ''-1'')) = ''neomers_-1''"
  using C7_length_out_of_domain_reaches_database
  by (simp add: request_length_25_def sample_jaccard_db_def StatusInternalServerError_def
      StatusBadRequest_def)

subsection \<open>Result materializer\<close>

lemma scanRows_Inr:
  assumes "scanRows conv scans data = Inr out"
  shows "\<exists>rows. scans = map Inr rows \<and> out = data @ map (map conv) rows"
  using assms
proof (induction conv scans data rule: scanRows.induct)
  case (1 conv data)
  then show ?case by simp
next
  case (2 conv err rest data)
  then show ?case by simp
next
  case (3 conv row rest data)
  from "3.prems" have "scanRows conv rest (data @ [map conv row]) = Inr out" by simp
  from "3.IH" [OF this] obtain rows where
    "rest = map Inr rows" and "out = (data @ [map conv row]) @ map (map conv) rows" by blast
  then have "Inr row # rest = map Inr (row # rows) \<and> out = data @ map (map conv) (row # rows)"
    by simp
  then show ?case by (rule exI [where x = "row # rows"])
qed

lemma bytesToString_cases:
  "bytesToString c = (case c of GoNil \<Rightarrow> GoNil | Bytes b \<Rightarrow> GoString b
                      | GoString s \<Rightarrow> GoString s | Other v \<Rightarrow> Other v)"
  by (simp add: bytesToString_def split: cell.splits)

lemma bytesToStringNil_cases:
  "bytesToStringNil c = (case c of GoNil \<Rightarrow> GoNil | Bytes b \<Rightarrow> GoString b
                      | GoString s \<Rightarrow> GoString s | Other v \<Rightarrow> Other v)"
  by (simp add: bytesToStringNil_def split: cell.splits)

lemma makeHandler_ok:
  assumes "fst (makeHandler db query) = \<lparr>status = StatusOK, body = b\<rparr>"
  shows "\<exists>rows columns cells. Query db query = Inr rows \<and> Columns rows = Inr columns
           \<and> Scans rows = map Inr cells
           \<and> b = TableBody columns (map (map bytesToString) cells)"
proof -
  from assms obtain rows where q: "Query db query = Inr rows"
    by (cases "Query db query") (auto simp: makeHandler_def StatusOK_def StatusInternalServerError_def)
  from assms q obtain columns where c: "Columns rows = Inr columns"
    by (cases "Columns rows") (auto simp: makeHandler_def StatusOK_def StatusInternalServerError_def)
  from assms q c obtain data where d: "scanRows bytesToString (Scans rows) [] = Inr data"
    by (cases "scanRows bytesToString (Scans rows) []")
       (auto simp: makeHandler_def StatusOK_def StatusInternalServerError_def)
  from scanRows_Inr [OF d] obtain cells where
    "Scans rows = map Inr cells" "data = map (map bytesToString) cells" by auto
  moreover from assms q c d have "b = TableBody columns data" by (simp add: makeHandler_def)
  ultimately show ?thesis using q c by blast
qed

lemma materializePage_ok:
  assumes "fst (materializePage db countQ pageQ totalCount) = \<lparr>status = StatusOK, body = b\<rparr>"
  shows "\<exists>rows cols cells. Query db pageQ = Inr rows \<and> Columns rows = Inr cols
           \<and> Scans rows = map Inr cells
           \<and> b = PageBody cols (map (map bytesToStringNil) cells) totalCount"
proof -
  from assms obtain rows where q: "Query db pageQ = Inr rows"
    by (cases "Query db pageQ")
       (auto simp: materializePage_def StatusOK_def StatusInternalServerError_def)
  from assms q obtain cols where c: "Columns rows = Inr cols"
    by (cases "Columns rows")
       (auto simp: materializePage_def StatusOK_def StatusInternalServerError_def)
  from assms q c obtain data where d: "scanRows bytesToStringNil (Scans rows) [] = Inr data"
    by (cases "scanRows bytesToStringNil (Scans rows) []")
       (auto simp: materializePage_def StatusOK_def StatusInternalServerError_def)
  from scanRows_Inr [OF d] obtain cells where
    "Scans rows = map Inr cells" "data = map (map bytesToStringNil) cells" by auto
  moreover from assms q c d have "b = PageBody cols data totalCount"
    by (simp add: materializePage_def)
  ultimately show ?thesis using q c by blast
qed

lemma getNullomersHandler_ok:
  assumes "fst (getNullomersHandler db req) = \<lparr>status = StatusOK, body = b\<rparr>"
  shows "\<exists>pageQ rows cols cells totalCount. Query db pageQ = Inr rows \<and> Columns rows = Inr cols
           \<and> Scans rows = map Inr cells
           \<and> b = PageBody cols (map (map bytesToStringNil) cells) totalCount"
proof -
  from assms have ne: "length_param req \<noteq> []"
    by (auto simp: getNullomersHandler_def StatusOK_def StatusBadRequest_def)
  let ?w = "finalWhereOf (buildWhereClauses req)"
  let ?cq = "countQuery (length_param req) ?w"
  from assms ne obtain totalCount where t: "QueryRowInt db ?cq = Inr totalCount"
    by (cases "QueryRowInt db ?cq")
       (auto simp: getNullomersHandler_def Let_def StatusOK_def StatusInternalServerError_def)
  let ?pq = "pageQuery (length_param req) ?w (parseLimit (limitStr req))
               (int64 (parsePage (pageStr req) * parseLimit (limitStr req)))"
  from assms ne t have "fst (materializePage db ?cq ?pq totalCount) = \<lparr>status = StatusOK, body = b\<rparr>"
    by (simp add: getNullomersHandler_def Let_def)
  from materializePage_ok [OF this] show ?thesis by blast
qed

text \<open>
  C10. In a successful response of \<open>makeHandler\<close> or \<open>getNullomersHandler\<close> the headers
  are the column names of the cursor, in their order, and the data has one row for each
  row scanned, of the same length, in which a byte slice has become the string of the
  same bytes, a NULL is still \<open>nil\<close>, every other cell is unchanged, and no cell is a
  byte slice.
\<close>

theorem C10_materialized_rows:
  assumes "fst (makeHandler db query) = \<lparr>status = StatusOK, body = b\<rparr>
           \<or> fst (getNullomersHandler db req) = \<lparr>status = StatusOK, body = b\<rparr>"
  shows "\<exists>q rows columns cells data.
           Query db q = Inr rows \<and> Columns rows = Inr columns \<and> Scans rows = map Inr cells
           \<and> (b = TableBody columns data \<or> (\<exists>totalCount. b = PageBody columns data totalCount))
           \<and> length data = length cells
           \<and> (\<forall>i < length cells. length (data ! i) = length (cells ! i)
                \<and> (\<forall>j < length (cells ! i).
                      data ! i ! j = (case cells ! i ! j of
                                        GoNil \<Rightarrow> GoNil
                                      | Bytes bs \<Rightarrow> GoString bs
                                      | GoString s \<Rightarrow> GoString s
                                      | Other v \<Rightarrow> Other v)
                      \<and> (\<forall>bs. data ! i ! j \<noteq> Bytes bs)))"
  using assms
proof
  assume "fst (makeHandler db query) = \<lparr>status = StatusOK, body = b\<rparr>"
  from makeHandler_ok [OF this] obtain rows columns cells where
    h: "Query db query = Inr rows" "Columns rows = Inr columns" "Scans rows = map Inr cells"
       "b = TableBody columns (map (map bytesToString) cells)" by blast
  let ?data = "map (map bytesToString) cells"
  have "length ?data = length cells
        \<and> (\<forall>i < length cells. length (?data ! i) = length (cells ! i)
                \<and> (\<forall>j < length (cells ! i).
                      ?data ! i ! j = (case cells ! i ! j of
                                        GoNil \<Rightarrow> GoNil
                                      | Bytes bs \<Rightarrow> GoString bs
                                      | GoString s \<Rightarrow> GoString s
                                      | Other v \<Rightarrow> Other v)
                      \<and> (\<forall>bs. ?data ! i ! j \<noteq> Bytes bs)))"
    by (auto simp: bytesToString_cases split: cell.splits)
  with h show ?thesis by blast
next
  assume "fst (getNullomersHandler db req) = \<lparr>status = StatusOK, body = b\<rparr>"
  from getNullomersHandler_ok [OF this] obtain pageQ rows cols cells totalCount where
    h: "Query db pageQ = Inr rows" "Columns rows = Inr cols" "Scans rows = map Inr cells"
       "b = PageBody cols (map (map bytesToStringNil) cells) totalCount" by blast
  let ?data = "map (map bytesToStringNil) cells"
  have "length ?data = length cells
        \<and> (\<forall>i < length cells. length (?data ! i) = length (cells ! i)
                \<and> (\<forall>j < length (cells ! i).
                      ?data ! i ! j = (case cells ! i ! j of
                                        GoNil \<Rightarrow> GoNil
                                      | Bytes bs \<Rightarrow> GoString bs
                                      | GoString s \<Rightarrow> GoString s
                                      | Other v \<Rightarrow> Other v)
                      \<and> (\<forall>bs. ?data ! i ! j \<noteq> Bytes bs)))"
    by (auto simp: bytesToStringNil_cases split: cell.splits)
  with h show ?thesis by blast
qed

theorem C10_materialized_rows_witness:
  "fst (makeHandler sampleExecutor ''SELECT * FROM cancer_types'')
     = \<lparr>status = StatusOK,
        body = TableBody [''nullomers_created'', ''AF'']
                 [[GoString ''ACGTACGTACG'', GoNil], [GoString ''ACGTACGTACC'', Other ()]]\<rparr>
   \<and> (\<exists>q rows columns cells data.
         Query sampleExecutor q = Inr rows \<and> Columns rows = Inr columns
         \<and> Scans rows = map Inr cells
         \<and> TableBody [''nullomers_created'', ''AF'']
              [[GoString ''ACGTACGTACG'', GoNil], [GoString ''ACGTACGTACC'', Other ()]]
            = TableBody columns data
         \<and> length data = length cells \<and> length cells = 2)"
proof -
  let ?b = "TableBody [''nullomers_created'', ''AF'']
              [[GoString ''ACGTACGTACG'', GoNil], [GoString ''ACGTACGTACC'', Other ()]]"
  have h: "fst (makeHandler sampleExecutor ''SELECT * FROM cancer_types'')
           = \<lparr>status = StatusOK, body = ?b\<rparr>"
    by (simp add: makeHandler_def sampleExecutor_def bytesToString_def)
  from C10_materialized_rows [where req = request_length_25, OF disjI1 [OF h]]
  obtain q rows columns cells data where
    x: "Query sampleExecutor q = Inr rows" "Columns rows = Inr columns"
       "Scans rows = map Inr cells"
       "?b = TableBody columns data \<or> (\<exists>totalCount. ?b = PageBody columns data totalCount)"
       "length data = length cells"
    by blast
  from x(4) have d: "?b = TableBody columns data" by auto
  then have "length data = 2" by auto
  with x(5) have "length cells = 2" by simp
  with x d h show ?thesis by blast
qed

subsection \<open>Single-entity lookups\<close>

lemma scanPatient_status: "status (scanPatient colNames row) = StatusOK"
  by (simp add: scanPatient_def split: sum.splits)

lemma scanPatient_not_found: "scanPatient colNames (Inl err) = \<lparr>status = StatusOK, body = Patient None\<rparr>"
  by (simp add: scanPatient_def)

lemma getPatientDetailsHandler_status:
  "status (getPatientDetailsHandler db actualID) = StatusOK
   \<or> (actualID = [] \<and> status (getPatientDetailsHandler db actualID) = StatusBadRequest)
   \<or> ((\<exists>err. donorDataColumns db = Inl err)
       \<and> status (getPatientDetailsHandler db actualID) = StatusInternalServerError)"
  by (auto simp: getPatientDetailsHandler_def Let_def scanPatient_status split: sum.splits)

lemma getExomePatientDetailsHandler_status:
  "status (getExomePatientDetailsHandler db actualID) = StatusOK
   \<or> (actualID = [] \<and> status (getExomePatientDetailsHandler db actualID) = StatusBadRequest)
   \<or> ((\<exists>err. exomeDonorDataColumns db = Inl err)
       \<and> status (getExomePatientDetailsHandler db actualID) = StatusInternalServerError)"
  by (auto simp: getExomePatientDetailsHandler_def Let_def scanPatient_status split: sum.splits)

text \<open>
  C9. For a donor identifier that is not empty: when the lookup of the internal key, the
  lookup of the project code, or (the columns of \<open>donor_data\<close> having been listed) the
  lookup of the donor row finds no row, \<open>getPatientDetailsHandler\<close> answers HTTP 200 with
  \<open>"patient": null\<close>; so does \<open>getExomePatientDetailsHandler\<close> when its lookup finds no
  row. Neither handler ever answers 404, and either answers 500 only when the statement
  that lists the columns of the donor table fails.
\<close>

theorem C9_lookup_without_row:
  assumes "actualID \<noteq> []"
  shows "(mappingLookup db actualID = Inl ErrNoRows \<longrightarrow>
            getPatientDetailsHandler db actualID = \<lparr>status = StatusOK, body = Patient None\<rparr>)
       \<and> (\<forall>internalID. mappingLookup db actualID = Inr internalID
              \<and> projectLookup db internalID = Inl ErrNoRows \<longrightarrow>
            getPatientDetailsHandler db actualID = \<lparr>status = StatusOK, body = Patient None\<rparr>)
       \<and> (\<forall>internalID projectCode columns. mappingLookup db actualID = Inr internalID
              \<and> projectLookup db internalID = Inr projectCode
              \<and> donorDataColumns db = Inr columns
              \<and> patientLookup db projectCode actualID = Inl ErrNoRows \<longrightarrow>
            getPatientDetailsHandler db actualID = \<lparr>status = StatusOK, body = Patient None\<rparr>)
       \<and> (\<forall>columns. exomeDonorDataColumns xdb = Inr columns
              \<and> exomePatientLookup xdb actualID = Inl ErrNoRows \<longrightarrow>
            getExomePatientDetailsHandler xdb actualID = \<lparr>status = StatusOK, body = Patient None\<rparr>)
       \<and> status (getPatientDetailsHandler db actualID) \<noteq> StatusNotFound
       \<and> status (getExomePatientDetailsHandler xdb actualID) \<noteq> StatusNotFound
       \<and> (status (getPatientDetailsHandler db actualID) = StatusInternalServerError \<longrightarrow>
            (\<exists>err. donorDataColumns db = Inl err))
       \<and> (status (getExomePatientDetailsHandler xdb actualID) = StatusInternalServerError \<longrightarrow>
            (\<exists>err. exomeDonorDataColumns xdb = Inl err))"
proof -
  have 1: "mappingLookup db actualID = Inl ErrNoRows \<longrightarrow>
            getPatientDetailsHandler db actualID = \<lparr>status = StatusOK, body = Patient None\<rparr>"
    using assms by (simp add: getPatientDetailsHandler_def)
  have 2: "\<forall>internalID. mappingLookup db actualID = Inr internalID
              \<and> projectLookup db internalID = Inl ErrNoRows \<longrightarrow>
            getPatientDetailsHandler db actualID = \<lparr>status = StatusOK, body = Patient None\<rparr>"
    using assms by (simp add: getPatientDetailsHandler_def)
  have 3: "\<forall>internalID projectCode columns. mappingLookup db actualID = Inr internalID
              \<and> projectLookup db internalID = Inr projectCode
              \<and> donorDataColumns db = Inr columns
              \<and> patientLookup db projectCode actualID = Inl ErrNoRows \<longrightarrow>
            getPatientDetailsHandler db actualID = \<lparr>status = StatusOK, body = Patient None\<rparr>"
    using assms by (simp add: getPatientDetailsHandler_def Let_def scanPatient_not_found)
  have 4: "\<forall>columns. exomeDonorDataColumns xdb = Inr columns
              \<and> exomePatientLookup xdb actualID = Inl ErrNoRows \<longrightarrow>
            getExomePatientDetailsHandler xdb actualID = \<lparr>status = StatusOK, body = Patient None\<rparr>"
    using assms by (simp add: getExomePatientDetailsHandler_def Let_def scanPatient_not_found)
  have 5: "status (getPatientDetailsHandler db actualID) \<noteq> StatusNotFound"
    using getPatientDetailsHandler_status [of db actualID]
    by (auto simp: StatusOK_def StatusNotFound_def StatusBadRequest_def StatusInternalServerError_def)
  have 6: "status (getExomePatientDetailsHandler xdb actualID) \<noteq> StatusNotFound"
    using getExomePatientDetailsHandler_status [of xdb actualID]
    by (auto simp: StatusOK_def StatusNotFound_def StatusBadRequest_def StatusInternalServerError_def)
  have 7: "status (getPatientDetailsHandler db actualID) = StatusInternalServerError \<longrightarrow>
            (\<exists>err. donorDataColumns db = Inl err)"
    using getPatientDetailsHandler_status [of db actualID]
    by (auto simp: StatusOK_def StatusBadRequest_def StatusInternalServerError_def)
  have 8: "status (getExomePatientDetailsHandler xdb actualID) = StatusInternalServerError \<longrightarrow>
            (\<exists>err. exomeDonorDataColumns xdb = Inl err)"
    using getExomePatientDetailsHandler_status [of xdb actualID]
    by (auto simp: StatusOK_def StatusBadRequest_def StatusInternalServerError_def)
  from 1 2 3 4 5 6 7 8 show ?thesis by blast
qed

theorem C9_lookup_without_row_witness:
  "''DO1'' \<noteq> [] \<and> ''DO404'' \<noteq> []
   \<and> mappingLookup samplePatientDb ''DO404'' = Inl ErrNoRows
   \<and> getPatientDetailsHandler samplePatientDb ''DO404'' = \<lparr>status = StatusOK, body = Patient None\<rparr>
   \<and> mappingLookup samplePatientDb ''DO1'' = Inr 1
   \<and> projectLookup samplePatientDb 1 = Inr ''P1''
   \<and> donorDataColumns samplePatientDb = Inr (Inr [''icgc_donor_id'', ''donor_sex''])
   \<and> patientLookup samplePatientDb ''P1'' ''DO1'' = Inl ErrNoRows
   \<and> getPatientDetailsHandler samplePatientDb ''DO1'' = \<lparr>status = StatusOK, body = Patient None\<rparr>
   \<and> exomeDonorDataColumns sampleExomePatientDb = Inr (Inr [''bcr_patient_barcode'', ''gender''])
   \<and> exomePatientLookup sampleExomePatientDb ''DO1'' = Inl ErrNoRows
   \<and> getExomePatientDetailsHandler sampleExomePatientDb ''DO1''
       = \<lparr>status = StatusOK, body = Patient None\<rparr>"
proof -
  have a: "''DO1'' \<noteq> []" "''DO404'' \<noteq> []" by simp_all
  show ?thesis
    using C9_lookup_without_row [OF a(1), of samplePatientDb sampleExomePatientDb]
      C9_lookup_without_row [OF a(2), of samplePatientDb sampleExomePatientDb]
    by (simp add: samplePatientDb_def sampleExomePatientDb_def)
qed

subsection \<open>The Jaccard query\<close>

lemma count_distinct_card: "count_distinct xs = int (card {x. Some x \<in> set xs})"
proof -
  have "set [x. Some x \<leftarrow> xs] = {x. Some x \<in> set xs}"
    by (auto split: option.splits)
  then show ?thesis
    by (simp add: count_distinct_def length_remdups_card_conv)
qed

lemma label_counts_alt:
  "label_counts jd =
     map (\<lambda>l. (l, int (card {s. (Some s, l) \<in> set jd}))) (remdups (map snd jd))"
proof -
  have "{x. Some x \<in> set [s. (s, l') \<leftarrow> jd, l' = l]} = {s. (Some s, l) \<in> set jd}" for l
    by auto
  then show ?thesis
    by (simp add: label_counts_def count_distinct_card)
qed

lemma set_self_join:
  "set (self_join jd) = {(s, l1, l2). s \<noteq> None \<and> (s, l1) \<in> set jd \<and> (s, l2) \<in> set jd}"
  by (auto simp: self_join_def sql_eq_def)

lemma intersections_alt:
  "intersections jd =
     map (\<lambda>g. (g, int (card {s. (Some s, fst g) \<in> set jd \<and> (Some s, snd g) \<in> set jd})))
       (remdups (map snd (self_join jd)))"
proof -
  have "{x. Some x \<in> set [s. (s, l1, l2) \<leftarrow> self_join jd, (l1, l2) = g]}
        = {s. (Some s, fst g) \<in> set jd \<and> (Some s, snd g) \<in> set jd}" for g
    by (cases g) (auto simp: set_self_join)
  then show ?thesis
    by (simp add: intersections_def count_distinct_card)
qed

lemma join_on_key:
  assumes "distinct ls"
  shows "[h l1 c1. (l1, c1) \<leftarrow> map (\<lambda>l. (l, f l)) ls, sql_eq x l1]
         = (case x of None \<Rightarrow> []
            | Some a \<Rightarrow> if Some a \<in> set ls then [h (Some a) (f (Some a))] else [])"
  using assms
proof (induction ls)
  case Nil
  show ?case by (simp split: option.splits)
next
  case (Cons l ls)
  then show ?case by (cases x) (auto simp: sql_eq_def)
qed

lemma join_on_key_concat:
  assumes "distinct ls"
  shows "concat (map (\<lambda>(l1, c1). if sql_eq x l1 then H l1 c1 else []) (map (\<lambda>l. (l, f l)) ls))
         = (case x of None \<Rightarrow> []
            | Some a \<Rightarrow> if Some a \<in> set ls then H (Some a) (f (Some a)) else [])"
  using assms
proof (induction ls)
  case Nil
  show ?case by (simp split: option.splits)
next
  case (Cons l ls)
  then show ?case by (cases x) (auto simp: sql_eq_def)
qed

lemma left_join_key:
  assumes "distinct gs"
  shows "[Some i. ((x, y), i) \<leftarrow> map (\<lambda>g. (g, F g)) gs, sql_eq (Some a) x \<and> sql_eq (Some b) y]
         = (if (Some a, Some b) \<in> set gs then [Some (F (Some a, Some b))] else [])"
  using assms
proof (induction gs)
  case Nil
  show ?case by simp
next
  case (Cons g gs)
  then show ?case by (cases g) (auto simp: sql_eq_def)
qed

lemma left_join_intersections_Some:
  "map (\<lambda>i. COALESCE i 0) (left_join_intersections (Some a, Some b) (intersections jd))
   = [int (card (spec_sequences jd a \<inter> spec_sequences jd b))]
   \<and> length (left_join_intersections (Some a, Some b) (intersections jd)) = 1"
proof -
  let ?gs = "remdups (map snd (self_join jd))"
  let ?F = "\<lambda>g. int (card {s. (Some s, fst g) \<in> set jd \<and> (Some s, snd g) \<in> set jd})"
  have m: "[Some i. ((x, y), i) \<leftarrow> intersections jd, sql_eq (Some a) x \<and> sql_eq (Some b) y]
        = (if (Some a, Some b) \<in> set ?gs then [Some (?F (Some a, Some b))] else [])"
    unfolding intersections_alt by (rule left_join_key) simp
  have set_eq: "{s. (Some s, Some a) \<in> set jd \<and> (Some s, Some b) \<in> set jd}
                = spec_sequences jd a \<inter> spec_sequences jd b"
    by (auto simp: spec_sequences_def)
  show ?thesis
  proof (cases "(Some a, Some b) \<in> set ?gs")
    case True
    with m show ?thesis
      by (simp add: left_join_intersections_def COALESCE_def set_eq)
  next
    case False
    then have "spec_sequences jd a \<inter> spec_sequences jd b = {}"
      by (force simp: spec_sequences_def set_self_join)
    with False m show ?thesis
      by (simp add: left_join_intersections_def COALESCE_def)
  qed
qed

lemma joined_rows_unfold:
  "joined_rows jd =
     concat (map (\<lambda>p.
       concat (map (\<lambda>i.
         concat (map (\<lambda>(l1, c1).
           if sql_eq (fst p) l1
           then concat (map (\<lambda>(l2, c2). if sql_eq (snd p) l2 then [select_row p i c1 c2] else [])
                  (label_counts jd))
           else [])
           (label_counts jd)))
         (left_join_intersections p (intersections jd))))
       (pairs (all_labels (label_counts jd))))"
  unfolding joined_rows_def by (rule refl)

lemma all_labels_label_counts: "all_labels (label_counts jd) = remdups (map snd jd)"
  by (simp add: all_labels_def label_counts_alt o_def)

lemma Some_in_labels: "Some a \<in> snd ` set jd \<longleftrightarrow> a \<in> spec_labels jd"
  by (force simp: spec_labels_def)

lemma card_spec_sequences:
  "int (card {s. (Some s, Some a) \<in> set jd}) = int (card (spec_sequences jd a))"
  by (simp add: spec_sequences_def)

text \<open>The rows that the joins produce for one pair of \<open>pairs\<close>.\<close>

lemma rows_for_pair:
  "concat (map (\<lambda>i.
         concat (map (\<lambda>(l1, c1).
           if sql_eq (fst (pa, pb)) l1
           then concat (map (\<lambda>(l2, c2). if sql_eq (snd (pa, pb)) l2 then [select_row (pa, pb) i c1 c2] else [])
                  (label_counts jd))
           else [])
           (label_counts jd)))
         (left_join_intersections (pa, pb) (intersections jd)))
   = (case (pa, pb) of
        (Some a, Some b) \<Rightarrow>
          if a \<in> spec_labels jd \<and> b \<in> spec_labels jd
          then [select_row (Some a, Some b)
                  (Some (int (card (spec_sequences jd a \<inter> spec_sequences jd b))))
                  (int (card (spec_sequences jd a))) (int (card (spec_sequences jd b)))]
          else []
      | _ \<Rightarrow> [])"
proof -
  have d: "distinct (remdups (map snd jd))" by simp
  have inner: "concat (map (\<lambda>(l2, c2). if sql_eq y l2 then [h c2] else []) (label_counts jd))
        = (case y of None \<Rightarrow> []
           | Some b \<Rightarrow> if b \<in> spec_labels jd then [h (int (card (spec_sequences jd b)))] else [])"
    for y and h :: "int \<Rightarrow> jaccard_sql_row"
    unfolding label_counts_alt
    by (subst join_on_key_concat [OF d])
       (simp add: Some_in_labels card_spec_sequences split: option.splits)
  have outer: "concat (map (\<lambda>(l1, c1). if sql_eq x l1 then H c1 else []) (label_counts jd))
        = (case x of None \<Rightarrow> []
           | Some a \<Rightarrow> if a \<in> spec_labels jd then H (int (card (spec_sequences jd a))) else [])"
    for x and H :: "int \<Rightarrow> jaccard_sql_row list"
    unfolding label_counts_alt
    by (subst join_on_key_concat [OF d])
       (simp add: Some_in_labels card_spec_sequences split: option.splits)
  show ?thesis
  proof (cases pa)
    case None
    then show ?thesis by (simp add: outer)
  next
    case (Some a)
    note a = this
    show ?thesis
    proof (cases pb)
      case None
      with a show ?thesis by (simp add: outer inner)
    next
      case (Some b)
      from left_join_intersections_Some [of a b jd] obtain i0 where
        lj: "left_join_intersections (Some a, Some b) (intersections jd) = [i0]"
        and co: "COALESCE i0 0 = int (card (spec_sequences jd a \<inter> spec_sequences jd b))"
        by (cases "left_join_intersections (Some a, Some b) (intersections jd)") auto
      have sel: "select_row (Some a, Some b) i0 c1 c2
            = select_row (Some a, Some b)
                (Some (int (card (spec_sequences jd a \<inter> spec_sequences jd b)))) c1 c2" for c1 c2
        by (simp only: select_row_def co) (simp add: COALESCE_def)
      show ?thesis
        using a Some by (simp add: lj outer inner sel)
    qed
  qed
qed

text \<open>
  The row that the final \<open>SELECT\<close> produces for two labels of the dataset, and the
  labels of the dataset in the order in which \<open>DISTINCT\<close> lists them.
\<close>

lemma concat_map_option:
  "concat (map (\<lambda>b. case b of None \<Rightarrow> [] | Some y \<Rightarrow> [g y]) bs) = map g [y. Some y \<leftarrow> bs]"
  by (induction bs) (auto split: option.splits)

lemma concat_map_option_list:
  "concat (map (\<lambda>a. case a of None \<Rightarrow> [] | Some x \<Rightarrow> G x) as) = concat (map G [x. Some x \<leftarrow> as])"
  by (induction as) (auto split: option.splits)

lemma set_somes: "set [x. Some x \<leftarrow> xs] = {x. Some x \<in> set xs}"
  by (auto split: option.splits)

lemma distinct_somes: "distinct xs \<Longrightarrow> distinct [x. Some x \<leftarrow> xs]"
  by (induction xs) (auto simp: set_somes split: option.splits)

lemma concat_map_pairs:
  "concat (map R (pairs ls)) = concat (map (\<lambda>a. concat (map (\<lambda>b. R (a, b)) ls)) ls)"
proof -
  have "concat (map R (concat (map (\<lambda>a. map (Pair a) ls) ms)))
        = concat (map (\<lambda>a. concat (map (\<lambda>b. R (a, b)) ls)) ms)" for ms
    by (induction ms) (simp_all add: o_def)
  then show ?thesis by (simp add: pairs_def)
qed

lemma rows_for_pair_p:
  "concat (map (\<lambda>i.
         concat (map (\<lambda>(l1, c1).
           if sql_eq (fst p) l1
           then concat (map (\<lambda>(l2, c2). if sql_eq (snd p) l2 then [select_row p i c1 c2] else [])
                  (label_counts jd))
           else [])
           (label_counts jd)))
         (left_join_intersections p (intersections jd)))
   = (case p of
        (Some a, Some b) \<Rightarrow>
          if a \<in> spec_labels jd \<and> b \<in> spec_labels jd
          then [select_row (Some a, Some b)
                  (Some (int (card (spec_sequences jd a \<inter> spec_sequences jd b))))
                  (int (card (spec_sequences jd a))) (int (card (spec_sequences jd b)))]
          else []
      | _ \<Rightarrow> [])"
proof (cases p)
  case (Pair pa pb)
  show ?thesis unfolding Pair by (rule rows_for_pair)
qed

lemma joined_rows_product:
  "joined_rows jd =
     map (\<lambda>(a, b). select_row (Some a, Some b)
                     (Some (int (card (spec_sequences jd a \<inter> spec_sequences jd b))))
                     (int (card (spec_sequences jd a))) (int (card (spec_sequences jd b))))
       (List.product [x. Some x \<leftarrow> remdups (map snd jd)] [x. Some x \<leftarrow> remdups (map snd jd)])"
proof -
  let ?ls = "remdups (map snd jd)"
  let ?nn = "[x. Some x \<leftarrow> ?ls]"
  let ?row = "\<lambda>a b. select_row (Some a, Some b)
                     (Some (int (card (spec_sequences jd a \<inter> spec_sequences jd b))))
                     (int (card (spec_sequences jd a))) (int (card (spec_sequences jd b)))"
  let ?R = "\<lambda>p. (case p of
        (Some a, Some b) \<Rightarrow>
          if a \<in> spec_labels jd \<and> b \<in> spec_labels jd then [?row a b] else []
      | _ \<Rightarrow> [])"
  have 1: "joined_rows jd = concat (map ?R (pairs ?ls))"
    unfolding joined_rows_unfold all_labels_label_counts
    by (simp only: rows_for_pair_p)
  have 2: "concat (map ?R (pairs ?ls)) = concat (map (\<lambda>a. concat (map (\<lambda>b. ?R (a, b)) ?ls)) ?ls)"
    by (rule concat_map_pairs)
  have inner: "concat (map (\<lambda>b. ?R (Some x, b)) ?ls) = map (?row x) ?nn" if "Some x \<in> set ?ls" for x
  proof -
    from that have x: "x \<in> spec_labels jd" by (simp add: Some_in_labels)
    have "map (\<lambda>b. ?R (Some x, b)) ?ls
          = map (\<lambda>b. case b of None \<Rightarrow> [] | Some y \<Rightarrow> [?row x y]) ?ls"
      by (rule map_cong [OF refl])
         (use x in \<open>auto simp: spec_labels_def split: option.splits\<close>)
    then have "concat (map (\<lambda>b. ?R (Some x, b)) ?ls)
          = concat (map (\<lambda>b. case b of None \<Rightarrow> [] | Some y \<Rightarrow> [?row x y]) ?ls)"
      by (rule arg_cong [where f = concat])
    also have "\<dots> = map (?row x) ?nn" by (rule concat_map_option)
    finally show ?thesis .
  qed
  have 3: "map (\<lambda>a. concat (map (\<lambda>b. ?R (a, b)) ?ls)) ?ls
        = map (\<lambda>a. case a of None \<Rightarrow> [] | Some x \<Rightarrow> map (?row x) ?nn) ?ls"
  proof (rule map_cong [OF refl])
    fix a assume a: "a \<in> set ?ls"
    show "concat (map (\<lambda>b. ?R (a, b)) ?ls)
          = (case a of None \<Rightarrow> [] | Some x \<Rightarrow> map (?row x) ?nn)"
    proof (cases a)
      case None
      then show ?thesis by simp
    next
      case (Some x)
      with a have "Some x \<in> set ?ls" by simp
      from inner [OF this] show ?thesis unfolding Some option.case .
    qed
  qed
  have 4: "concat (map (\<lambda>a. case a of None \<Rightarrow> [] | Some x \<Rightarrow> map (?row x) ?nn) ?ls)
        = concat (map (\<lambda>x. map (?row x) ?nn) ?nn)"
    by (rule concat_map_option_list)
  have 5: "concat (map (\<lambda>x. map (?row x) ?nn) ?nn)
        = map (\<lambda>(a, b). ?row a b) (List.product ?nn ?nn)"
    by (simp add: product_concat_map map_concat o_def)
  have "joined_rows jd = concat (map (\<lambda>a. concat (map (\<lambda>b. ?R (a, b)) ?ls)) ?ls)"
    using 1 2 by (rule trans)
  also have "\<dots> = concat (map (\<lambda>a. case a of None \<Rightarrow> [] | Some x \<Rightarrow> map (?row x) ?nn) ?ls)"
    using 3 by (rule arg_cong [where f = concat])
  also have "\<dots> = concat (map (\<lambda>x. map (?row x) ?nn) ?nn)" by (rule 4)
  also have "\<dots> = map (\<lambda>(a, b). ?row a b) (List.product ?nn ?nn)" by (rule 5)
  finally show ?thesis .
qed

lemma scanJaccard_Some:
  fixes rows :: "jaccard_sql_row list"
  assumes "\<And>r. r \<in> set rows \<Longrightarrow> col_a r \<noteq> None \<and> col_b r \<noteq> None"
  shows "scanJaccard rows results =
     Inr (results @ map (\<lambda>r. \<lparr>label_a = the (col_a r), label_b = the (col_b r),
                               Intersection = col_intersection_count r,
                               Union_count = col_union_count r,
                               JaccardIndex = col_jaccard_index r\<rparr>) rows)"
  using assms
proof (induction rows arbitrary: results)
  case Nil
  show ?case by simp
next
  case (Cons r rows)
  from Cons.prems [of r] obtain a b where ab: "col_a r = Some a" "col_b r = Some b" by auto
  have "\<And>r'. r' \<in> set rows \<Longrightarrow> col_a r' \<noteq> None \<and> col_b r' \<noteq> None"
    using Cons.prems by simp
  from Cons.IH [OF this] show ?case by (simp add: ab)
qed

lemma finite_spec_labels: "finite (spec_labels jd)"
proof -
  have "spec_labels jd \<subseteq> the ` snd ` set jd"
    by (force simp: spec_labels_def)
  then show ?thesis by (rule finite_subset) simp
qed

lemma order_key_pair_le:
  "((order_key (Some a), order_key (Some b)) \<le> (order_key (Some a'), order_key (Some b')))
   \<longleftrightarrow> ((a, b) \<le> (a', b'))"
  by (auto simp: order_key_def)

lemma sorted_map_reflect:
  assumes "sorted (map k zs)" and "\<And>x y. k x \<le> k y \<Longrightarrow> x \<le> y"
  shows "sorted zs"
  using assms by (induction zs) auto

text \<open>
  The result of the query, scanned: one result for each ordered pair of labels of the
  dataset, in lexicographic order of the pair, with the counts as the specification
  words them and the index rounded in double precision.
\<close>

lemma binary64_10000: "binary64 10000 = 10000"
  by (simp add: binary64_def exponent_def ilog2.simps pow2_def roundTiesToEven_def)

lemma ROUND_4:
  "ROUND (divide_double (CAST_AS_DOUBLE i) (CAST_AS_DOUBLE u)) 4 = double_round4 i u"
proof -
  define m where "m = binary64 (binary64 (binary64 (real_of_int i) / binary64 (real_of_int u))
                                * 10000)"
  have "std_round m = real_of_int (if 0 \<le> m then \<lfloor>m + 1 / 2\<rfloor> else - \<lfloor>- m + 1 / 2\<rfloor>)"
    by (simp add: std_round_def sgn_if)
  then show ?thesis
    unfolding ROUND_def double_round4_def divide_double_def CAST_AS_DOUBLE_def Let_def m_def
    by (simp add: binary64_10000)
qed

lemma scanJaccard_jaccard_query:
  "scanJaccard (jaccard_query label n c) [] =
     Inr (map (\<lambda>(a, b). double_jaccard_result (joined_data label n c) a b)
            (sorted_list_of_set (spec_labels (joined_data label n c)
                                 \<times> spec_labels (joined_data label n c))))"
proof -
  define jd where "jd = joined_data label n c"
  define nn where "nn = [x. Some x \<leftarrow> remdups (map snd jd)]"
  define g where "g = (\<lambda>(a, b). select_row (Some a, Some b)
                     (Some (int (card (spec_sequences jd a \<inter> spec_sequences jd b))))
                     (int (card (spec_sequences jd a))) (int (card (spec_sequences jd b))))"
  define key :: "jaccard_sql_row \<Rightarrow> (nat \<times> string) \<times> (nat \<times> string)"
    where "key = (\<lambda>r. (order_key (col_a r), order_key (col_b r)))"
  define key2 :: "jaccard_sql_row \<Rightarrow> string \<times> string"
    where "key2 = (\<lambda>r. (the (col_a r), the (col_b r)))"
  define conv :: "jaccard_sql_row \<Rightarrow> JaccardResult"
    where "conv = (\<lambda>r. \<lparr>label_a = the (col_a r), label_b = the (col_b r),
                               Intersection = col_intersection_count r,
                               Union_count = col_union_count r,
                               JaccardIndex = col_jaccard_index r\<rparr>)"
  define ps where "ps = List.product nn nn"
  define rs where "rs = sort_key key (map g ps)"
  have rows: "joined_rows jd = map g ps"
    unfolding g_def ps_def nn_def by (rule joined_rows_product)
  have q: "jaccard_query label n c = rs"
    by (simp add: jaccard_query_def rs_def key_def rows jd_def [symmetric])
  have set_nn: "set nn = spec_labels jd"
    by (force simp: nn_def set_somes spec_labels_def)
  have dist_nn: "distinct nn"
    unfolding nn_def by (rule distinct_somes) simp
  have set_ps: "set ps = spec_labels jd \<times> spec_labels jd"
    by (simp add: ps_def set_nn)
  have dist_ps: "distinct ps"
    unfolding ps_def using dist_nn by (simp add: distinct_product)
  have key2_g: "key2 (g p) = p" for p
    by (cases p) (simp add: key2_def g_def select_row_def)
  have key_g: "key (g (a, b)) = (order_key (Some a), order_key (Some b))" for a b
    by (simp add: key_def g_def select_row_def)
  have set_rs: "set rs = g ` set ps"
    by (simp add: rs_def)
  have g_key2: "g (key2 r) = r" if "r \<in> set rs" for r
    using that by (auto simp: set_rs key2_g)
  have nonnull: "col_a r \<noteq> None \<and> col_b r \<noteq> None" if "r \<in> set rs" for r
    using that by (auto simp: set_rs g_def select_row_def)
  have "inj_on g (set ps)"
    by (rule inj_on_inverseI [where g = key2]) (rule key2_g)
  with dist_ps have "distinct (map g ps)" by (simp add: distinct_map)
  then have dist_rs: "distinct rs" by (simp add: rs_def)
  have "inj_on key2 (set rs)"
    by (rule inj_on_inverseI [where g = g]) (rule g_key2)
  with dist_rs have d2: "distinct (map key2 rs)" by (simp add: distinct_map)
  have s2: "set (map key2 rs) = spec_labels jd \<times> spec_labels jd"
    by (simp add: set_rs image_image key2_g set_ps)
  have "sorted (map key rs)" by (simp add: rs_def)
  moreover have "map key rs = map (\<lambda>(a, b). (order_key (Some a), order_key (Some b))) (map key2 rs)"
  proof -
    have "key r = (\<lambda>(a, b). (order_key (Some a), order_key (Some b))) (key2 r)"
      if "r \<in> set rs" for r
    proof -
      from that obtain a b where "r = g (a, b)" by (auto simp: set_rs)
      then show ?thesis by (simp add: key_g key2_g)
    qed
    then show ?thesis by simp
  qed
  ultimately have "sorted (map (\<lambda>(a, b). (order_key (Some a), order_key (Some b))) (map key2 rs))"
    by simp
  then have sorted2: "sorted (map key2 rs)"
  proof (rule sorted_map_reflect)
    fix x y :: "string \<times> string"
    assume "(case x of (a, b) \<Rightarrow> (order_key (Some a), order_key (Some b)))
            \<le> (case y of (a, b) \<Rightarrow> (order_key (Some a), order_key (Some b)))"
    then show "x \<le> y"
      by (cases x; cases y) (simp only: prod.case order_key_pair_le)
  qed
  have fin: "finite (spec_labels jd \<times> spec_labels jd)"
    by (simp add: finite_spec_labels)
  have keys: "map key2 rs = sorted_list_of_set (spec_labels jd \<times> spec_labels jd)"
    by (rule sorted_distinct_set_unique [OF sorted2 d2]) (simp_all add: fin s2 del: set_map)
  have "rs = map g (map key2 rs)"
    by (simp add: g_key2 map_idI)
  then have rs_eq: "rs = map g (sorted_list_of_set (spec_labels jd \<times> spec_labels jd))"
    by (simp only: keys)
  have conv_g: "conv (g p) = double_jaccard_result jd (fst p) (snd p)" for p
    by (cases p)
       (simp add: conv_def g_def select_row_def double_jaccard_result_def
          jaccard_result_with_def Let_def COALESCE_def sql_eq_def ROUND_4)
  have "scanJaccard rs [] = Inr ([] @ map conv rs)"
    unfolding conv_def by (rule scanJaccard_Some) (rule nonnull)
  also have "map conv rs = map (\<lambda>(a, b). double_jaccard_result jd a b)
                (sorted_list_of_set (spec_labels jd \<times> spec_labels jd))"
    by (subst rs_eq) (simp add: conv_g split_def)
  finally show ?thesis by (simp add: q jd_def)
qed

subsection \<open>The Jaccard handlers\<close>

lemma jaccardHandler_ok:
  assumes "K \<noteq> []" and "snd (Atoi K) = None" and "K \<noteq> ''0''"
    and "neomers_tables db (''neomers_'' @ K) = Some n"
  shows "jaccardHandler label db K =
     (\<lparr>status = StatusOK,
       body = JaccardIndices
         (map (\<lambda>(a, b). double_jaccard_result (joined_data label n (cancer_type_details db)) a b)
            (sorted_list_of_set (spec_labels (joined_data label n (cancer_type_details db))
                                 \<times> spec_labels (joined_data label n (cancer_type_details db)))))\<rparr>,
      [''neomers_'' @ K])"
  using assms by (simp add: jaccardHandler_def scanJaccard_jaccard_query)

lemma jaccardHandler_ok_conv:
  assumes "fst (jaccardHandler label db K) = \<lparr>status = StatusOK, body = JaccardIndices results\<rparr>"
  shows "\<exists>n. K \<noteq> [] \<and> snd (Atoi K) = None \<and> K \<noteq> ''0''
             \<and> neomers_tables db (''neomers_'' @ K) = Some n"
proof -
  have s: "StatusOK \<noteq> StatusBadRequest" "StatusOK \<noteq> StatusInternalServerError"
    by (simp_all add: StatusOK_def StatusBadRequest_def StatusInternalServerError_def)
  from assms s have k: "K \<noteq> []" "snd (Atoi K) = None" "K \<noteq> ''0''"
    by (auto simp: jaccardHandler_def split: if_splits)
  with assms s have "neomers_tables db (''neomers_'' @ K) \<noteq> None"
    by (cases "neomers_tables db (''neomers_'' @ K)") (auto simp: jaccardHandler_def Let_def)
  with k show ?thesis by auto
qed

lemma double_jaccard_result_swap:
  assumes "a \<noteq> b"
  shows "label_a (double_jaccard_result jd b a) = label_b (double_jaccard_result jd a b)
       \<and> label_b (double_jaccard_result jd b a) = label_a (double_jaccard_result jd a b)
       \<and> Intersection (double_jaccard_result jd b a) = Intersection (double_jaccard_result jd a b)
       \<and> Union_count (double_jaccard_result jd b a) = Union_count (double_jaccard_result jd a b)
       \<and> JaccardIndex (double_jaccard_result jd b a) = JaccardIndex (double_jaccard_result jd a b)"
  using assms
  by (simp add: double_jaccard_result_def jaccard_result_with_def Let_def Int_commute add.commute)

lemma jaccardHandler_symmetric:
  assumes ok: "fst (jaccardHandler label db K) = \<lparr>status = StatusOK, body = JaccardIndices results\<rparr>"
    and r: "r \<in> set results" and ne: "label_a r \<noteq> label_b r"
  shows "\<exists>r' \<in> set results. label_a r' = label_b r \<and> label_b r' = label_a r
           \<and> Intersection r' = Intersection r \<and> JaccardIndex r' = JaccardIndex r"
proof -
  from jaccardHandler_ok_conv [OF ok] obtain n where
    k: "K \<noteq> []" "snd (Atoi K) = None" "K \<noteq> ''0''"
       "neomers_tables db (''neomers_'' @ K) = Some n" by blast
  define jd where "jd = joined_data label n (cancer_type_details db)"
  have fin: "finite (spec_labels jd \<times> spec_labels jd)" by (simp add: finite_spec_labels)
  from ok jaccardHandler_ok [OF k, of label] have
    res: "results = map (\<lambda>(a, b). double_jaccard_result jd a b)
            (sorted_list_of_set (spec_labels jd \<times> spec_labels jd))"
    by (simp add: jd_def)
  with r fin obtain a b where ab: "a \<in> spec_labels jd" "b \<in> spec_labels jd"
    and r_eq: "r = double_jaccard_result jd a b"
    by auto
  from ne r_eq have "a \<noteq> b"
    by (auto simp: double_jaccard_result_def jaccard_result_with_def Let_def)
  have "double_jaccard_result jd b a \<in> set results"
    using ab fin by (force simp: res)
  with double_jaccard_result_swap [OF \<open>a \<noteq> b\<close>, of jd] r_eq show ?thesis by blast
qed

subsection \<open>A dataset with a tie in the fourth decimal\<close>

lemma nuc_inj: "a < 4 \<Longrightarrow> b < 4 \<Longrightarrow> ''ACGT'' ! a = ''ACGT'' ! b \<Longrightarrow> a = b"
  for a b :: nat
proof -
  assume "a < 4" "b < 4" "''ACGT'' ! a = ''ACGT'' ! b"
  moreover have "a < 4 \<Longrightarrow> a = 0 \<or> a = 1 \<or> a = 2 \<or> a = 3" by arith
  moreover have "b < 4 \<Longrightarrow> b = 0 \<or> b = 1 \<or> b = 2 \<or> b = 3" by arith
  ultimately show "a = b" by (auto simp: numeral_eq_Suc)
qed

lemma seq11_inj: 
  assumes "k < 1024" "k' < 1024" "seq11 k = seq11 k'"
  shows "k = k'"
proof -
  from assms(3) have
    d: "''ACGT'' ! (k div 256 mod 4) = ''ACGT'' ! (k' div 256 mod 4)"
       "''ACGT'' ! (k div 64 mod 4) = ''ACGT'' ! (k' div 64 mod 4)"
       "''ACGT'' ! (k div 16 mod 4) = ''ACGT'' ! (k' div 16 mod 4)"
       "''ACGT'' ! (k div 4 mod 4) = ''ACGT'' ! (k' div 4 mod 4)"
       "''ACGT'' ! (k mod 4) = ''ACGT'' ! (k' mod 4)"
    by (simp_all add: seq11_def)
  have e: "k div 256 mod 4 = k' div 256 mod 4" "k div 64 mod 4 = k' div 64 mod 4"
    "k div 16 mod 4 = k' div 16 mod 4" "k div 4 mod 4 = k' div 4 mod 4" "k mod 4 = k' mod 4"
    using d by (auto intro: nuc_inj)
  have step: "x = y" if "x div 4 = y div 4" "x mod 4 = y mod 4" for x y :: nat
    using that by (metis div_mult_mod_eq)
  have lt: "k div 256 < 4" "k' div 256 < 4" using assms(1,2) by simp_all
  have "k div 256 mod 4 = k div 256" "k' div 256 mod 4 = k' div 256"
    by (rule mod_less, rule lt)+
  with e(1) have "k div 256 = k' div 256" by (simp only:)
  then have "k div 64 div 4 = k' div 64 div 4"
   
    by (simp only: div_mult2_eq [symmetric] numeral_times_numeral semiring_norm)
  from this e(2) have "k div 64 = k' div 64" by (rule step)
  then have "k div 16 div 4 = k' div 16 div 4"
    by (simp only: div_mult2_eq [symmetric] numeral_times_numeral semiring_norm)
  from this e(3) have "k div 16 = k' div 16" by (rule step)
  then have "k div 4 div 4 = k' div 4 div 4"
    by (simp only: div_mult2_eq [symmetric] numeral_times_numeral semiring_norm)
  from this e(4) have "k div 4 = k' div 4" by (rule step)
  from this e(5) show ?thesis by (rule step)
qed


lemma seq11_inj_on: "inj_on seq11 {0..<1024}"
  by (rule inj_onI) (auto intro: seq11_inj)

lemma concat_map_single: "concat (map (\<lambda>x. [f x]) xs) = map f xs"
  by (induction xs) simp_all

lemma tie_joined_data:
  "joined_data Cancer_Type tie_neomers sample_details =
     map (\<lambda>k. (Some (seq11 k), Some ''Lung'')) [0..<139]
     @ map (\<lambda>k. (Some (seq11 k), Some ''Breast'')) [0..<800]"
  by (simp add: joined_data_def tie_neomers_def sample_details_def sql_eq_def o_def
      concat_map_single)

lemma tie_labels:
  "spec_labels (joined_data Cancer_Type tie_neomers sample_details) = {''Breast'', ''Lung''}"
proof -
  have "(Some (seq11 0), Some ''Lung'')
          \<in> set (joined_data Cancer_Type tie_neomers sample_details)"
    and "(Some (seq11 0), Some ''Breast'')
          \<in> set (joined_data Cancer_Type tie_neomers sample_details)"
    unfolding tie_joined_data by (auto simp: image_iff intro!: bexI [of _ 0])
  then have "{''Breast'', ''Lung''}
      \<subseteq> spec_labels (joined_data Cancer_Type tie_neomers sample_details)"
    unfolding spec_labels_def by blast
  moreover have "spec_labels (joined_data Cancer_Type tie_neomers sample_details)
      \<subseteq> {''Breast'', ''Lung''}"
    unfolding tie_joined_data spec_labels_def by auto
  ultimately show ?thesis by (rule subset_antisym [rotated])
qed

lemma tie_sequences:
  "spec_sequences (joined_data Cancer_Type tie_neomers sample_details) ''Lung'' = seq11 ` {0..<139}"
  "spec_sequences (joined_data Cancer_Type tie_neomers sample_details) ''Breast'' = seq11 ` {0..<800}"
  unfolding tie_joined_data spec_sequences_def by auto


lemma tie_cards:
  "card (spec_sequences (joined_data Cancer_Type tie_neomers sample_details) ''Lung'') = 139"
  "card (spec_sequences (joined_data Cancer_Type tie_neomers sample_details) ''Breast'') = 800"
  "card (spec_sequences (joined_data Cancer_Type tie_neomers sample_details) ''Breast''
         \<inter> spec_sequences (joined_data Cancer_Type tie_neomers sample_details) ''Lung'') = 139"
  "card (spec_sequences (joined_data Cancer_Type tie_neomers sample_details) ''Lung''
         \<inter> spec_sequences (joined_data Cancer_Type tie_neomers sample_details) ''Breast'') = 139"
proof -
  have i1: "inj_on seq11 {0..<139}" and i2: "inj_on seq11 {0..<800}"
    by (rule inj_on_subset [OF seq11_inj_on], simp)+
  show "card (spec_sequences (joined_data Cancer_Type tie_neomers sample_details) ''Lung'') = 139"
    by (simp add: tie_sequences card_image [OF i1])
  show "card (spec_sequences (joined_data Cancer_Type tie_neomers sample_details) ''Breast'') = 800"
    by (simp add: tie_sequences card_image [OF i2])
  have "seq11 ` {0..<800} \<inter> seq11 ` {0..<139} = seq11 ` {0..<139}"
    by auto
  then show "card (spec_sequences (joined_data Cancer_Type tie_neomers sample_details) ''Breast''
         \<inter> spec_sequences (joined_data Cancer_Type tie_neomers sample_details) ''Lung'') = 139"
    by (simp add: tie_sequences card_image [OF i1])
  then show "card (spec_sequences (joined_data Cancer_Type tie_neomers sample_details) ''Lung''
         \<inter> spec_sequences (joined_data Cancer_Type tie_neomers sample_details) ''Breast'') = 139"
    by (simp only: Int_commute)
qed

lemma tie_pairs:
  "sorted_list_of_set ({''Breast'', ''Lung''} \<times> {''Breast'', ''Lung''})
     = [(''Breast'', ''Breast''), (''Breast'', ''Lung''), (''Lung'', ''Breast''), (''Lung'', ''Lung'')]"
proof -
  have "sorted_list_of_set (set [(''Breast'', ''Breast''), (''Breast'', ''Lung''),
          (''Lung'', ''Breast''), (''Lung'', ''Lung'')])
     = [(''Breast'', ''Breast''), (''Breast'', ''Lung''), (''Lung'', ''Breast''), (''Lung'', ''Lung'')]"
    by (rule sorted_list_of_set.idem_if_sorted_distinct) (simp_all add: less_eq_prod_def)
  moreover have "set [(''Breast'', ''Breast''), (''Breast'', ''Lung''),
          (''Lung'', ''Breast''), (''Lung'', ''Lung'')] = {''Breast'', ''Lung''} \<times> {''Breast'', ''Lung''}"
    by auto
  ultimately show ?thesis by simp
qed

lemma tie_index:
  "double_round4 139 800 = binary64 (1737 / 10000)"
  "spec_round (139 / 800) 4 = 1738 / 10000"
  "binary64 (1737 / 10000) < 1738 / 10000"
proof -
  have e: "exponent 139 = 7" "exponent 800 = 9" "exponent (139 / 800) = - 3"
    by (simp_all add: exponent_def clog2_def ilog2.simps)
  have b: "binary64 139 = 139" "binary64 800 = 800"
    by (simp_all add: binary64_def e pow2_def roundTiesToEven_def)
  show "double_round4 139 800 = binary64 (1737 / 10000)"
    by (simp add: double_round4_def b binary64_def e exponent_def clog2_def ilog2.simps
        pow2_def roundTiesToEven_def)
  show "spec_round (139 / 800) 4 = 1738 / 10000"
    by (simp add: spec_round_def)
  show "binary64 (1737 / 10000) < 1738 / 10000"
    by (simp add: binary64_def exponent_def clog2_def ilog2.simps pow2_def roundTiesToEven_def)
qed

lemma tie_rows:
  "map (\<lambda>(a, b). double_jaccard_result (joined_data Cancer_Type tie_neomers sample_details) a b)
     (sorted_list_of_set
        (spec_labels (joined_data Cancer_Type tie_neomers sample_details)
         \<times> spec_labels (joined_data Cancer_Type tie_neomers sample_details)))
   = tie_jaccard_results"
  unfolding tie_labels tie_pairs
  by (simp add: double_jaccard_result_def jaccard_result_with_def Let_def tie_cards tie_index
      tie_jaccard_results_def)

lemma tie_spec_row:
  "spec_jaccard_result (joined_data Cancer_Type tie_neomers sample_details) ''Breast'' ''Lung''
     = \<lparr>label_a = ''Breast'', label_b = ''Lung'', Intersection = 139, Union_count = 800,
         JaccardIndex = 1738 / 10000\<rparr>"
  by (simp add: spec_jaccard_result_def jaccard_result_with_def Let_def tie_cards tie_index)

lemma tie_handler:
  "fst (getJaccardIndexHandler tie_jaccard_db ''11'')
     = \<lparr>status = StatusOK, body = JaccardIndices tie_jaccard_results\<rparr>"
proof -
  have a: "snd (Atoi ''11'') = None" by code_simp
  have t: "neomers_tables tie_jaccard_db (''neomers_'' @ ''11'') = Some tie_neomers"
    by (simp add: tie_jaccard_db_def)
  have c: "cancer_type_details tie_jaccard_db = sample_details"
    by (simp add: tie_jaccard_db_def)
  from jaccardHandler_ok [OF _ a _ t, of Cancer_Type] show ?thesis
    by (simp add: getJaccardIndexHandler_def c tie_rows)
qed

text \<open>
  C1, as stated, fails in the index: the specification rounds the exact quotient, the
  query rounds in double precision. For the pair (Breast, Lung) of the dataset above the
  quotient is \<open>139/800 = 0.17375\<close>, which rounds to \<open>0.1738\<close> (the integer nearest to
  \<open>1737.5\<close> is \<open>1738\<close> with halves away from zero, and with halves to even as well).
  The double nearest to \<open>139/800\<close> times \<open>10^4\<close> is a double just below \<open>1737.5\<close>,
  so the handler answers the double nearest to \<open>0.1737\<close>.
\<close>

theorem C1_index_rounded_in_double_precision:
  "fst (getJaccardIndexHandler tie_jaccard_db ''11'')
     = \<lparr>status = StatusOK, body = JaccardIndices tie_jaccard_results\<rparr>
   \<and> tie_jaccard_results ! 1
     = \<lparr>label_a = ''Breast'', label_b = ''Lung'', Intersection = 139, Union_count = 800,
         JaccardIndex = binary64 (1737 / 10000)\<rparr>
   \<and> spec_jaccard_result (joined_data Cancer_Type tie_neomers (cancer_type_details tie_jaccard_db))
       ''Breast'' ''Lung''
     = \<lparr>label_a = ''Breast'', label_b = ''Lung'', Intersection = 139, Union_count = 800,
         JaccardIndex = 1738 / 10000\<rparr>
   \<and> roundTiesToEven (139 / 800 * 10 ^ 4) = 1738
   \<and> binary64 (1737 / 10000) < 1738 / 10000
   \<and> tie_jaccard_results ! 1
     \<noteq> spec_jaccard_result (joined_data Cancer_Type tie_neomers (cancer_type_details tie_jaccard_db))
         ''Breast'' ''Lung''"
proof -
  have c: "cancer_type_details tie_jaccard_db = sample_details"
    by (simp add: tie_jaccard_db_def)
  have r: "tie_jaccard_results ! 1
     = \<lparr>label_a = ''Breast'', label_b = ''Lung'', Intersection = 139, Union_count = 800,
         JaccardIndex = binary64 (1737 / 10000)\<rparr>"
    by (simp add: tie_jaccard_results_def)
  have e: "roundTiesToEven (139 / 800 * 10 ^ 4) = 1738"
    by (simp add: roundTiesToEven_def)
  from tie_index(3) have n: "binary64 (1737 / 10000) \<noteq> 1738 / 10000" by simp
  show ?thesis
    unfolding c tie_spec_row r using tie_handler tie_index(3) e n by simp
qed

subsection \<open>The sample dataset\<close>

lemma sample_joined_data:
  "joined_data Cancer_Type sample_neomers sample_details =
     [(Some ''AAAAAAAAAAA'', Some ''Lung''), (Some ''AAAAAAAAAAA'', Some ''Breast''),
      (Some ''CCCCCCCCCCC'', Some ''Breast''), (Some ''GGGGGGGGGGG'', Some ''Lung''),
      (None, Some ''Skin'')]"
  by code_simp

lemma sample_labels:
  "spec_labels (joined_data Cancer_Type sample_neomers sample_details)
     = {''Breast'', ''Lung'', ''Skin''}"
proof (rule set_eqI)
  fix a
  have "a \<in> spec_labels (joined_data Cancer_Type sample_neomers sample_details)
        \<longleftrightarrow> Some a \<in> snd ` set (joined_data Cancer_Type sample_neomers sample_details)"
    by (rule Some_in_labels [symmetric])
  also have "\<dots> \<longleftrightarrow> a \<in> {''Breast'', ''Lung'', ''Skin''}"
    unfolding sample_joined_data by (simp add: disj_commute disj_left_commute)
  finally show "a \<in> spec_labels (joined_data Cancer_Type sample_neomers sample_details)
        \<longleftrightarrow> a \<in> {''Breast'', ''Lung'', ''Skin''}" .
qed

lemma sample_sequences:
  "spec_sequences (joined_data Cancer_Type sample_neomers sample_details) ''Breast''
     = {''AAAAAAAAAAA'', ''CCCCCCCCCCC''}"
  "spec_sequences (joined_data Cancer_Type sample_neomers sample_details) ''Lung''
     = {''AAAAAAAAAAA'', ''GGGGGGGGGGG''}"
  "spec_sequences (joined_data Cancer_Type sample_neomers sample_details) ''Skin'' = {}"
  unfolding sample_joined_data spec_sequences_def
  by (simp_all add: set_eq_iff disj_commute)

lemma sample_pairs:
  "sorted_list_of_set ({''Breast'', ''Lung'', ''Skin''} \<times> {''Breast'', ''Lung'', ''Skin''})
     = [(''Breast'', ''Breast''), (''Breast'', ''Lung''), (''Breast'', ''Skin''),
        (''Lung'', ''Breast''), (''Lung'', ''Lung''), (''Lung'', ''Skin''),
        (''Skin'', ''Breast''), (''Skin'', ''Lung''), (''Skin'', ''Skin'')]"
proof -
  let ?ps = "[(''Breast'', ''Breast''), (''Breast'', ''Lung''), (''Breast'', ''Skin''),
        (''Lung'', ''Breast''), (''Lung'', ''Lung''), (''Lung'', ''Skin''),
        (''Skin'', ''Breast''), (''Skin'', ''Lung''), (''Skin'', ''Skin'')]"
  have "sorted_list_of_set (set ?ps) = ?ps"
    by (rule sorted_list_of_set.idem_if_sorted_distinct) (simp_all add: less_eq_prod_def)
  moreover have "set ?ps = {''Breast'', ''Lung'', ''Skin''} \<times> {''Breast'', ''Lung'', ''Skin''}"
    by auto
  ultimately show ?thesis by simp
qed

lemma sample_index:
  "double_round4 1 3 = binary64 (3333 / 10000)" "double_round4 0 2 = 0"
proof -
  have e: "exponent 3 = 1" "exponent 1 = 0" "exponent (1 / 3) = - 2"
    by (simp_all add: exponent_def clog2_def ilog2.simps)
  have b: "binary64 1 = 1" "binary64 3 = 3"
    by (simp_all add: binary64_def e pow2_def roundTiesToEven_def)
  show "double_round4 1 3 = binary64 (3333 / 10000)"
    by (simp add: double_round4_def b binary64_def e exponent_def clog2_def ilog2.simps
        pow2_def roundTiesToEven_def)
  show "double_round4 0 2 = 0"
    by (simp add: double_round4_def binary64_def)
qed

lemma sample_rows:
  "map (\<lambda>(a, b). double_jaccard_result (joined_data Cancer_Type sample_neomers sample_details) a b)
     (sorted_list_of_set
        (spec_labels (joined_data Cancer_Type sample_neomers sample_details)
         \<times> spec_labels (joined_data Cancer_Type sample_neomers sample_details)))
   = sample_jaccard_results"
  unfolding sample_labels sample_pairs
  by (simp add: double_jaccard_result_def jaccard_result_with_def Let_def sample_sequences
      sample_index sample_jaccard_results_def)

lemma sample_handler:
  "fst (getJaccardIndexHandler sample_jaccard_db ''11'')
     = \<lparr>status = StatusOK, body = JaccardIndices sample_jaccard_results\<rparr>"
proof -
  have a: "snd (Atoi ''11'') = None" by code_simp
  have t: "neomers_tables sample_jaccard_db (''neomers_'' @ ''11'') = Some sample_neomers"
    by (simp add: sample_jaccard_db_def)
  have c: "cancer_type_details sample_jaccard_db = sample_details"
    by (simp add: sample_jaccard_db_def)
  from jaccardHandler_ok [OF _ a _ t, of Cancer_Type] show ?thesis
    by (simp add: getJaccardIndexHandler_def c sample_rows)
qed

subsection \<open>The result rows\<close>

text \<open>
  C1, amended. For a valid \<open>K\<close> whose table exists, each Jaccard endpoint answers HTTP
  200 with exactly the result rows of the ordered pairs of labels drawn from the dataset,
  every self-pair included, one row per pair, in the lexicographic order of the pairs
  (strings compared byte by byte); the row of a pair \<open>(A, B)\<close> holds the number of
  distinct sequences shared by \<open>A\<close> and \<open>B\<close>, the union count
  \<open>count(A) + count(B) - intersection_count\<close>, and the index \<open>1\<close> when \<open>A = B\<close>, else
  \<open>0\<close> when the union count is \<open>0\<close>, else \<open>ROUND(intersection_count / union_count, 4)\<close>
  as the engine evaluates it in double precision: the quotient, its product with \<open>10^4\<close>
  and the quotient of the nearest integer by \<open>10^4\<close> are each rounded to the nearest
  double.
\<close>

theorem C1_jaccard_rows:
  assumes "K \<noteq> []" and "snd (Atoi K) = None" and "K \<noteq> ''0''"
    and "neomers_tables db (''neomers_'' @ K) = Some n"
  shows "fst (getJaccardIndexHandler db K) =
     \<lparr>status = StatusOK,
      body = JaccardIndices
        (map (\<lambda>(a, b). double_jaccard_result (joined_data Cancer_Type n (cancer_type_details db)) a b)
           (sorted_list_of_set
              (spec_labels (joined_data Cancer_Type n (cancer_type_details db))
               \<times> spec_labels (joined_data Cancer_Type n (cancer_type_details db)))))\<rparr>
   \<and> fst (getJaccardIndexOrgansHandler db K) =
     \<lparr>status = StatusOK,
      body = JaccardIndices
        (map (\<lambda>(a, b). double_jaccard_result (joined_data Organ n (cancer_type_details db)) a b)
           (sorted_list_of_set
              (spec_labels (joined_data Organ n (cancer_type_details db))
               \<times> spec_labels (joined_data Organ n (cancer_type_details db)))))\<rparr>"
  using jaccardHandler_ok [OF assms, of Cancer_Type] jaccardHandler_ok [OF assms, of Organ]
  by (simp add: getJaccardIndexHandler_def getJaccardIndexOrgansHandler_def)

theorem C1_jaccard_rows_witness:
  "''11'' \<noteq> [] \<and> snd (Atoi ''11'') = None \<and> ''11'' \<noteq> ''0''
   \<and> neomers_tables sample_jaccard_db (''neomers_'' @ ''11'') = Some sample_neomers
   \<and> fst (getJaccardIndexHandler sample_jaccard_db ''11'') =
     \<lparr>status = StatusOK,
      body = JaccardIndices
        (map (\<lambda>(a, b). double_jaccard_result
                (joined_data Cancer_Type sample_neomers (cancer_type_details sample_jaccard_db)) a b)
           (sorted_list_of_set
              (spec_labels (joined_data Cancer_Type sample_neomers (cancer_type_details sample_jaccard_db))
               \<times> spec_labels (joined_data Cancer_Type sample_neomers (cancer_type_details sample_jaccard_db)))))\<rparr>
   \<and> fst (getJaccardIndexHandler sample_jaccard_db ''11'') =
     \<lparr>status = StatusOK, body = JaccardIndices sample_jaccard_results\<rparr>"
proof -
  have a: "snd (Atoi ''11'') = None" by code_simp
  have t: "neomers_tables sample_jaccard_db (''neomers_'' @ ''11'') = Some sample_neomers"
    by (simp add: sample_jaccard_db_def)
  have e: "fst (getJaccardIndexHandler sample_jaccard_db ''11'') =
     \<lparr>status = StatusOK, body = JaccardIndices sample_jaccard_results\<rparr>"
    by (rule sample_handler)
  from C1_jaccard_rows [OF _ a _ t] a t e show ?thesis by simp
qed

text \<open>
  C8. In a successful response of a Jaccard endpoint, every row of two different labels
  \<open>(A, B)\<close> has a row \<open>(B, A)\<close> with the same intersection count and the same Jaccard
  index.
\<close>

theorem C8_jaccard_symmetry:
  assumes "fst (getJaccardIndexHandler db K) = \<lparr>status = StatusOK, body = JaccardIndices results\<rparr>
           \<or> fst (getJaccardIndexOrgansHandler db K)
              = \<lparr>status = StatusOK, body = JaccardIndices results\<rparr>"
    and "r \<in> set results" and "label_a r \<noteq> label_b r"
  shows "\<exists>r' \<in> set results. label_a r' = label_b r \<and> label_b r' = label_a r
           \<and> Intersection r' = Intersection r \<and> JaccardIndex r' = JaccardIndex r"
  using assms jaccardHandler_symmetric [of Cancer_Type db K results r]
    jaccardHandler_symmetric [of Organ db K results r]
  by (auto simp: getJaccardIndexHandler_def getJaccardIndexOrgansHandler_def)

theorem C8_jaccard_symmetry_witness:
  "fst (getJaccardIndexHandler sample_jaccard_db ''11'')
     = \<lparr>status = StatusOK, body = JaccardIndices sample_jaccard_results\<rparr>
   \<and> sample_jaccard_results ! 1 \<in> set sample_jaccard_results
   \<and> label_a (sample_jaccard_results ! 1) \<noteq> label_b (sample_jaccard_results ! 1)
   \<and> (\<exists>r' \<in> set sample_jaccard_results.
         label_a r' = label_b (sample_jaccard_results ! 1)
         \<and> label_b r' = label_a (sample_jaccard_results ! 1)
         \<and> Intersection r' = Intersection (sample_jaccard_results ! 1)
         \<and> JaccardIndex r' = JaccardIndex (sample_jaccard_results ! 1))"
proof -
  have e: "fst (getJaccardIndexHandler sample_jaccard_db ''11'') =
     \<lparr>status = StatusOK, body = JaccardIndices sample_jaccard_results\<rparr>"
    by (rule sample_handler)
  have m: "sample_jaccard_results ! 1 \<in> set sample_jaccard_results"
    by (simp add: sample_jaccard_results_def)
  have n: "label_a (sample_jaccard_results ! 1) \<noteq> label_b (sample_jaccard_results ! 1)"
    by (simp add: sample_jaccard_results_def)
  from C8_jaccard_symmetry [OF disjI1 [OF e] m n] e m n show ?thesis by blast
qed

end
